theory Spec2Isabelle
  imports Main "HOL-Library.AList"
begin

section \<open>The framed transport (class V8Protocol)\<close>

text \<open>
  The transport keeps a sequence counter, the table of pending requests, the bytes read
  so far and the length of the body it is waiting for (\<open>-1\<close> while it waits for a
  header). The bytes are modelled as a \<open>string\<close>: headers are ASCII, where the byte
  index of the \<open>Buffer\<close> and the index in the decoded JavaScript string coincide.
  JavaScript numbers are modelled as \<open>int\<close>: the counter stays far below \<open>2^53\<close>,
  where the two agree.
\<close>

datatype message_type = request | response | event

record ProtocolMessage =
  msg_type :: "message_type option"
  msg_seq :: int
  msg_command :: string
  msg_payload :: string

text \<open>What the transport does to the outside: the calls to its hooks and callbacks.\<close>

datatype dispatched =
    onEvent string
  | callback int string
  | dispatchRequest int string
  | onServerError string

text \<open>The result of \<open>JSON.parse\<close> followed by the switch on \<open>rawData.type\<close>.\<close>

datatype raw_message =
    raw_event string
  | raw_response int string
  | raw_request int string
  | raw_other

record V8Protocol =
  sequence :: int
  contentLength :: int
  pendingRequests :: "int list"
  rawData :: string
  outputStream :: "ProtocolMessage list"

definition TWO_CRLF :: string where
  "TWO_CRLF = [CHR 0x0D, CHR 0x0A, CHR 0x0D, CHR 0x0A]"

definition constructor :: V8Protocol where
  "constructor = \<lparr>sequence = 1, contentLength = -1, pendingRequests = [],
     rawData = [], outputStream = []\<rparr>"

text \<open>
  \<open>_sendMessage\<close>: stamp the message with its type and the current counter, increment
  the counter, write the frame. The header that precedes the JSON text is determined by
  the message, so the output stream is modelled as the list of messages written.
\<close>

definition sendMessage :: "message_type \<Rightarrow> ProtocolMessage \<Rightarrow> V8Protocol \<Rightarrow> V8Protocol" where
  "sendMessage typ message st =
     st\<lparr>sequence := sequence st + 1,
        outputStream := outputStream st @
          [message\<lparr>msg_type := Some typ, msg_seq := sequence st\<rparr>]\<rparr>"

text \<open>\<open>_doSend\<close> (reached from \<open>send\<close>): write the request, then store its callback.\<close>

definition doSend :: "string \<Rightarrow> string \<Rightarrow> V8Protocol \<Rightarrow> V8Protocol" where
  "doSend command args st =
     (let st1 = sendMessage request
            \<lparr>msg_type = None, msg_seq = 0, msg_command = command, msg_payload = args\<rparr> st
      in st1\<lparr>pendingRequests := pendingRequests st1 @ [sequence st]\<rparr>)"

text \<open>\<open>sendResponse\<close>: a response that already has a positive \<open>seq\<close> is only logged.\<close>

definition sendResponse :: "ProtocolMessage \<Rightarrow> V8Protocol \<Rightarrow> V8Protocol" where
  "sendResponse resp st = (if msg_seq resp > 0 then st else sendMessage response resp st)"

text \<open>
  The calls that write to the adapter: the public \<open>send\<close> and \<open>sendResponse\<close>, and
  \<open>_sendMessage\<close> itself, for a message of any type.
\<close>

datatype transport_call =
    send string string
  | send_response ProtocolMessage
  | send_message message_type ProtocolMessage

fun transport_step :: "V8Protocol \<Rightarrow> transport_call \<Rightarrow> V8Protocol" where
  "transport_step st (send command args) = doSend command args st"
| "transport_step st (send_response resp) = sendResponse resp st"
| "transport_step st (send_message typ message) = sendMessage typ message st"

definition transport_run :: "transport_call list \<Rightarrow> V8Protocol" where
  "transport_run calls = foldl transport_step constructor calls"

subsection \<open>The decoder\<close>

text \<open>\<open>String.prototype.indexOf\<close>: the first index at which the pattern starts.\<close>

fun indexOf :: "string \<Rightarrow> string \<Rightarrow> nat option" where
  "indexOf [] pat = (if pat = [] then Some 0 else None)"
| "indexOf (c # s) pat =
     (if take (length pat) (c # s) = pat then Some 0
      else map_option Suc (indexOf s pat))"

definition isDigit :: "char \<Rightarrow> bool" where
  "isDigit c = (c \<in> set ''0123456789'')"

text \<open>
  \<open>/Content-Length: (\d+)/.exec(s)\<close>: the leftmost place of the whole string where the
  literal is followed by a digit; the group is the longest run of digits there.
\<close>

fun execContentLength :: "string \<Rightarrow> string option" where
  "execContentLength [] = None"
| "execContentLength (c # s) =
     (let rest = drop 16 (c # s)
      in if take 16 (c # s) = ''Content-Length: '' \<and> rest \<noteq> [] \<and> isDigit (hd rest)
         then Some (takeWhile isDigit rest)
         else execContentLength s)"

text \<open>\<open>Number(match[1])\<close> on a string of decimal digits.\<close>

definition Number :: "string \<Rightarrow> int" where
  "Number ds = foldl (\<lambda>n c. 10 * n + (int (of_char c) - 48)) 0 ds"

text \<open>
  \<open>_dispatch\<close>: parse the body and switch on its type. A parse failure is reported by
  \<open>onServerError\<close>; a response whose \<open>request_seq\<close> is not pending and a message of
  another type are dropped. The parser is a parameter; the hooks are taken to return
  without throwing.
\<close>

definition dispatch ::
  "(string \<Rightarrow> raw_message option) \<Rightarrow> string \<Rightarrow> int list \<Rightarrow> int list \<times> dispatched list" where
  "dispatch parse body pending =
     (case parse body of
        None \<Rightarrow> (pending, [onServerError body])
      | Some (raw_event e) \<Rightarrow> (pending, [onEvent e])
      | Some (raw_response request_seq r) \<Rightarrow>
          (if request_seq \<in> set pending
           then (removeAll request_seq pending, [callback request_seq r])
           else (pending, []))
      | Some (raw_request seq' command) \<Rightarrow> (pending, [dispatchRequest seq' command])
      | Some raw_other \<Rightarrow> (pending, []))"

text \<open>
  \<open>_handleData\<close>: the loop \<open>while (true)\<close>. Each \<open>continue\<close> is a recursive call, the
  final \<open>break\<close> returns. The result is the state and the hook calls made, in order.
\<close>

function handleData ::
  "(string \<Rightarrow> raw_message option) \<Rightarrow> V8Protocol \<Rightarrow> V8Protocol \<times> dispatched list" where
  "handleData parse st =
     (if contentLength st \<ge> 0 then
        (if int (length (rawData st)) \<ge> contentLength st then
           (let message = take (nat (contentLength st)) (rawData st);
                st1 = st\<lparr>rawData := drop (nat (contentLength st)) (rawData st),
                         contentLength := -1\<rparr>;
                d = (if length message > 0 then dispatch parse message (pendingRequests st1)
                     else (pendingRequests st1, []));
                r = handleData parse (st1\<lparr>pendingRequests := fst d\<rparr>)
            in (fst r, snd d @ snd r))
         else (st, []))
      else
        (case indexOf (rawData st) TWO_CRLF of
           None \<Rightarrow> (st, [])
         | Some idx \<Rightarrow>
             (case execContentLength (rawData st) of
                None \<Rightarrow> (st, [])
              | Some digits \<Rightarrow>
                  handleData parse
                    (st\<lparr>contentLength := Number digits,
                        rawData := drop (idx + length TWO_CRLF) (rawData st)\<rparr>))))"
  by pat_completeness auto
termination
proof (relation "measure (\<lambda>(parse, st).
         2 * length (rawData st) + (if contentLength st \<ge> 0 then 1 else 0))", goal_cases)
  case 1
  show ?case by simp
next
  case (2 parse st message st1 d)
  then show ?case by simp
next
  case (3 parse st idx digits)
  from 3(2) obtain c cs where "rawData st = c # cs"
    by (cases "rawData st") (simp_all add: TWO_CRLF_def)
  then show ?case using 3(1) by (auto simp: TWO_CRLF_def)
qed


declare handleData.simps [simp del]

text \<open>
  The listener that \<open>connect\<close> installs on the readable stream: append the chunk to the
  buffer, then decode. \<open>receive\<close> is the listener called for each chunk in turn.
\<close>

definition onData ::
  "(string \<Rightarrow> raw_message option) \<Rightarrow> string \<Rightarrow> V8Protocol \<Rightarrow> V8Protocol \<times> dispatched list" where
  "onData parse data st = handleData parse (st\<lparr>rawData := rawData st @ data\<rparr>)"

fun receive ::
  "(string \<Rightarrow> raw_message option) \<Rightarrow> string list \<Rightarrow> V8Protocol \<Rightarrow>
     V8Protocol \<times> dispatched list" where
  "receive parse [] st = (st, [])"
| "receive parse (d # ds) st =
     (let a = onData parse d st; r = receive parse ds (fst a)
      in (fst r, snd a @ snd r))"

section \<open>The translator (class VsDebugSessionTranslator)\<close>

subsection \<open>Data\<close>

text \<open>\<open>String(n)\<close> on an integer: its decimal numeral.\<close>

fun digits_of :: "nat \<Rightarrow> string" where
  "digits_of n =
     (if n < 10 then [char_of (48 + n)]
      else digits_of (n div 10) @ [char_of (48 + n mod 10)])"

declare digits_of.simps [simp del]

definition String :: "int \<Rightarrow> string" where
  "String i = (if i < 0 then CHR ''-'' # digits_of (nat (- i)) else digits_of (nat i))"

text \<open>
  \<open>x || d\<close> on an optional number: the default is taken when \<open>x\<close> is absent and also
  when it is \<open>0\<close>, which JavaScript counts as false.
\<close>

definition or_default :: "int option \<Rightarrow> int \<Rightarrow> int" where
  "or_default x d = (case x of None \<Rightarrow> d | Some v \<Rightarrow> if v = 0 then d else v)"

text \<open>
  \<open>a === b\<close> between a field that is a number or \<open>null\<close> and a value that is a number
  or \<open>undefined\<close>: true only when both are numbers and equal.
\<close>

definition strict_eq :: "int option \<Rightarrow> int option \<Rightarrow> bool" where
  "strict_eq a b = (case a of None \<Rightarrow> False | Some x \<Rightarrow> b = Some x)"

record Location =
  scriptId :: string
  loc_lineNumber :: int
  loc_columnNumber :: int

definition nuclideDebuggerLocation :: "string \<Rightarrow> int \<Rightarrow> int \<Rightarrow> Location" where
  "nuclideDebuggerLocation sid line col =
     \<lparr>scriptId = sid, loc_lineNumber = line, loc_columnNumber = col\<rparr>"

record TranslatorBreakpoint =
  breakpointId :: "string option"
  path :: string
  lineNumber :: int
  condition :: string
  hitCount :: int
  resolved :: bool

datatype ThreadState = running | paused

record Scope =
  scope_type :: string
  scope_name :: string
  object_description :: string
  objectId :: string

record CallFrame =
  callFrameId :: string
  functionName :: string
  location :: Location
  hasSource :: bool
  scopeChain :: "Scope list"

record ThreadInfo =
  state :: ThreadState
  callFrames :: "CallFrame list option"
  callStackLoaded :: bool
  stopReason :: "string option"

record PausedEvent =
  pe_callFrames :: "CallFrame list"
  pe_reason :: string
  stopThreadId :: int
  threadSwitchMessage :: "string option"

record ThreadDescription =
  td_id :: int
  td_name :: string
  td_description :: string
  td_address :: string
  td_location :: Location
  td_stopReason :: string
  td_hasSource :: bool

record ThreadsUpdatedEvent =
  owningProcessId :: int
  threads :: "ThreadDescription list"
  tu_stopThreadId :: "int option"

record EvaluateResponse =
  result_type :: string
  result_value :: "string option"
  result_description :: "string option"
  result_objectId :: "string option"
  exceptionDetails :: "string option"
  wasThrown :: bool

text \<open>The messages handed to \<open>_sendMessageToClient\<close>.\<close>

datatype client_message =
    empty_response int
  | error_response int string
  | setBreakpointByUrl_response int string Location bool
  | evaluate_response int EvaluateResponse
  | Debugger_paused PausedEvent
  | Debugger_threadsUpdated ThreadsUpdatedEvent
  | Debugger_resumed

text \<open>The adapter side: what the debug adapter sends back.\<close>

record vsBreakpoint =
  vs_id :: "int option"
  vs_verified :: bool
  vs_line :: "int option"

record vsStackFrame =
  frame_id :: int
  frame_name :: string
  frame_source :: "string option option"
  frame_line :: int
  frame_column :: int

record vsScope =
  vs_name :: string
  vs_variablesReference :: int

record vsEvaluateBody =
  body_type :: string
  body_result :: string
  body_variablesReference :: int

record ContinueToLocationArguments =
  arg_column :: int
  arg_line :: int
  arg_source_path :: string
  arg_source_name :: string
  arg_threadId :: "int option"

text \<open>The requests the translator makes through its session.\<close>

datatype adapter_request =
    pause_request int
  | setBreakpoints_request string "int list" "(int \<times> string) list"
  | stackTrace_request int "int option"
  | scopes_request int
  | evaluate_request string "int option"
  | continueToLocation_request ContinueToLocationArguments

text \<open>
  The session class is not part of the sources at hand. It is a parameter: a record of
  the answers the adapter gives to each request, \<open>Inl message\<close> (or \<open>Some message\<close>)
  when the request is rejected, together with the two capability accessors used here.
\<close>

record VsDebugSession =
  isReadyForBreakpoints :: bool
  supportsDelayedStackTraceLoading :: bool
  pause :: "int \<Rightarrow> string option"
  setBreakpoints :: "string \<Rightarrow> (int \<times> string) list \<Rightarrow> string + vsBreakpoint list"
  stackTrace :: "int \<Rightarrow> int option \<Rightarrow> string + vsStackFrame list"
  scopes :: "int \<Rightarrow> string + vsScope list"
  evaluate :: "string \<Rightarrow> int option \<Rightarrow> string + vsEvaluateBody"
  nuclide_continueToLocation :: "ContinueToLocationArguments \<Rightarrow> string option"

text \<open>
  The helper functions and the file cache, also parameters. \<open>decodeURIComponent\<close> is
  \<open>None\<close> where it throws; \<open>registerFile\<close> is \<open>Some message\<close> where it is rejected.
\<close>

record helpers =
  decodeURIComponent :: "string \<Rightarrow> string option"
  uriToPath :: "string \<Rightarrow> string"
  pathToUri :: "string \<Rightarrow> string"
  getPath :: "string \<Rightarrow> string"
  basename :: "string \<Rightarrow> string"
  registerFile :: "string \<Rightarrow> string option"

text \<open>
  The translator's fields. \<open>_threadsById\<close> is a JavaScript \<open>Map\<close>, whose keys keep
  their insertion order: an association list. The two logs record what went to the
  client and to the adapter.
\<close>

record VsDebugSessionTranslator =
  breakpoints :: "TranslatorBreakpoint list"
  lastBreakpointId :: int
  threadsById :: "(int \<times> ThreadInfo) list"
  pausedThreadId :: "int option"
  pausedThreadIdPrevious :: "int option"
  toClient :: "client_message list"
  toAdapter :: "adapter_request list"

definition new_translator :: VsDebugSessionTranslator where
  "new_translator = \<lparr>breakpoints = [], lastBreakpointId = 0, threadsById = [],
     pausedThreadId = None, pausedThreadIdPrevious = None, toClient = [], toAdapter = []\<rparr>"

definition sendMessageToClient ::
  "client_message \<Rightarrow> VsDebugSessionTranslator \<Rightarrow> VsDebugSessionTranslator" where
  "sendMessageToClient m st = st\<lparr>toClient := toClient st @ [m]\<rparr>"

definition sendRequest ::
  "adapter_request \<Rightarrow> VsDebugSessionTranslator \<Rightarrow> VsDebugSessionTranslator" where
  "sendRequest r st = st\<lparr>toAdapter := toAdapter st @ [r]\<rparr>"

subsection \<open>Thread bookkeeping and the thread commands\<close>

definition updatePausedThreadId ::
  "int option \<Rightarrow> VsDebugSessionTranslator \<Rightarrow> VsDebugSessionTranslator" where
  "updatePausedThreadId newPausedThreadId st =
     (let st1 = (if pausedThreadId st \<noteq> None
                 then st\<lparr>pausedThreadIdPrevious := pausedThreadId st\<rparr> else st)
      in st1\<lparr>pausedThreadId := newPausedThreadId\<rparr>)"

text \<open>
  \<open>Debugger.pause\<close>, inside \<open>catchCommandError\<close>: a rejected pause request becomes an
  error response.
\<close>

definition Debugger_pause ::
  "VsDebugSession \<Rightarrow> int \<Rightarrow> VsDebugSessionTranslator \<Rightarrow> VsDebugSessionTranslator" where
  "Debugger_pause session cid st =
     (let threadId = (case pausedThreadId st of
                        Some t \<Rightarrow> t
                      | None \<Rightarrow>
                          or_default (case map fst (threadsById st) of
                                        [] \<Rightarrow> None | k # _ \<Rightarrow> Some k) (- 1));
          st1 = updatePausedThreadId None st;
          st2 = sendRequest (pause_request threadId) st1
      in case pause session threadId of
           None \<Rightarrow> sendMessageToClient (empty_response cid) st2
         | Some message \<Rightarrow> sendMessageToClient (error_response cid message) st2)"

definition Debugger_selectThread ::
  "int \<Rightarrow> int option \<Rightarrow> VsDebugSessionTranslator \<Rightarrow> VsDebugSessionTranslator" where
  "Debugger_selectThread cid threadId st =
     sendMessageToClient (empty_response cid) (updatePausedThreadId threadId st)"

subsection \<open>Continue to location\<close>

record ContinueToLocation =
  ctl_scriptId :: string
  ctl_lineNumber :: int
  ctl_columnNumber :: "int option"
  ctl_threadId :: "int option"

text \<open>
  \<open>_continueToLocation\<close>: \<open>Inl message\<close> is the exception that leaves the function
  when the file registration or the adapter request is rejected.
\<close>

definition continueToLocation ::
  "helpers \<Rightarrow> VsDebugSession \<Rightarrow> ContinueToLocation \<Rightarrow> VsDebugSessionTranslator \<Rightarrow>
     (string + unit) \<times> VsDebugSessionTranslator" where
  "continueToLocation h session loc st =
     (case registerFile h (pathToUri h (ctl_scriptId loc)) of
        Some message \<Rightarrow> (Inl message, st)
      | None \<Rightarrow>
          (let args = \<lparr>arg_column = or_default (ctl_columnNumber loc) 1,
                       arg_line = ctl_lineNumber loc + 1,
                       arg_source_path = getPath h (ctl_scriptId loc),
                       arg_source_name = basename h (ctl_scriptId loc),
                       arg_threadId = ctl_threadId loc\<rparr>;
               st1 = sendRequest (continueToLocation_request args) st
           in case nuclide_continueToLocation session args of
                Some message \<Rightarrow> (Inl message, st1)
              | None \<Rightarrow> (Inr (), st1)))"

definition Debugger_continueToLocation ::
  "helpers \<Rightarrow> VsDebugSession \<Rightarrow> int \<Rightarrow> ContinueToLocation \<Rightarrow> VsDebugSessionTranslator \<Rightarrow>
     VsDebugSessionTranslator" where
  "Debugger_continueToLocation h session cid loc st =
     (case continueToLocation h session loc st of
        (Inl message, st1) \<Rightarrow> sendMessageToClient (error_response cid message) st1
      | (Inr _, st1) \<Rightarrow> sendMessageToClient (empty_response cid) st1)"

subsection \<open>Breakpoints\<close>

record SetBreakpointByUrl =
  cmd_id :: int
  cmd_url :: string
  cmd_lineNumber :: int
  cmd_condition :: "string option"

definition getBreakpointsForFilePath ::
  "string \<Rightarrow> VsDebugSessionTranslator \<Rightarrow> TranslatorBreakpoint list" where
  "getBreakpointsForFilePath p st = filter (\<lambda>breakpoint. path breakpoint = p) (breakpoints st)"

text \<open>
  \<open>_tryUpdateBreakpoint\<close>. The test \<open>lineNumber !== breakpoint.line\<close> reads a field the
  record does not have, so it holds for every number: a line reported by the adapter
  always replaces the record's line.
\<close>

definition tryUpdateBreakpoint :: "TranslatorBreakpoint \<Rightarrow> vsBreakpoint \<Rightarrow> TranslatorBreakpoint" where
  "tryUpdateBreakpoint breakpoint vsBp =
     (let b1 = (if \<not> resolved breakpoint \<and> vs_verified vsBp
                then breakpoint\<lparr>resolved := True\<rparr> else breakpoint)
      in case vs_line vsBp of
           None \<Rightarrow> b1
         | Some l \<Rightarrow> b1\<lparr>lineNumber := l\<rparr>)"

text \<open>
  The \<open>forEach\<close> of \<open>_syncBreakpointsForFilePath\<close>, on lists of equal length: a record
  without an id takes the adapter's, or the next of the translator's own counter.
\<close>

fun assignIds ::
  "vsBreakpoint list \<Rightarrow> TranslatorBreakpoint list \<Rightarrow> int \<Rightarrow> TranslatorBreakpoint list \<times> int" where
  "assignIds (v # vs) (b # bs) lastId =
     (let lastId1 = (if breakpointId b = None \<and> vs_id v = None then lastId + 1 else lastId);
          b1 = (if breakpointId b = None
                then b\<lparr>breakpointId :=
                       Some (String (case vs_id v of None \<Rightarrow> lastId1 | Some i \<Rightarrow> i))\<rparr>
                else b);
          r = assignIds vs bs lastId1
      in (tryUpdateBreakpoint b1 v # fst r, snd r))"
| "assignIds vs bs lastId = (bs, lastId)"

definition count_mismatch :: "nat \<Rightarrow> nat \<Rightarrow> string" where
  "count_mismatch n m =
     ''Failed to set breakpoints - count mismatch! '' @ String (int n) @ '' vs. '' @ String (int m)"

text \<open>
  \<open>_syncBreakpointsForFilePath\<close>: the records it is given are updated in place; the
  result is their new value, or the message of the exception.
\<close>

definition syncBreakpointsForFilePath ::
  "VsDebugSession \<Rightarrow> string \<Rightarrow> TranslatorBreakpoint list \<Rightarrow> VsDebugSessionTranslator \<Rightarrow>
     (string + TranslatorBreakpoint list) \<times> VsDebugSessionTranslator" where
  "syncBreakpointsForFilePath session p bps st =
     (let lines = map lineNumber bps;
          conds = map (\<lambda>bp. (lineNumber bp, condition bp)) bps;
          st1 = sendRequest (setBreakpoints_request p lines conds) st
      in case setBreakpoints session p conds of
           Inl message \<Rightarrow> (Inl message, st1)
         | Inr vsBreakpoints \<Rightarrow>
             (if length vsBreakpoints \<noteq> length bps
              then (Inl (count_mismatch (length vsBreakpoints) (length bps)), st1)
              else (let r = assignIds vsBreakpoints bps (lastBreakpointId st1)
                    in (Inr (fst r), st1\<lparr>lastBreakpointId := snd r\<rparr>))))"

text \<open>
  \<open>_removeBreakpoint\<close>. The records given to the synchronisation are copies, so
  only the counter and the log change there.
\<close>

fun findIndex :: "('a \<Rightarrow> bool) \<Rightarrow> 'a list \<Rightarrow> nat option" where
  "findIndex P [] = None"
| "findIndex P (x # xs) = (if P x then Some 0 else map_option Suc (findIndex P xs))"

definition removeBreakpoint ::
  "VsDebugSession \<Rightarrow> string \<Rightarrow> VsDebugSessionTranslator \<Rightarrow>
     (string + unit) \<times> VsDebugSessionTranslator" where
  "removeBreakpoint session bid st =
     (case findIndex (\<lambda>bp. breakpointId bp = Some bid) (breakpoints st) of
        None \<Rightarrow> (Inr (), st)
      | Some foundBreakpointIdx \<Rightarrow>
          (let foundBreakpoint = breakpoints st ! foundBreakpointIdx;
               remainingBreakpoints =
                 filter (\<lambda>breakpoint. breakpointId breakpoint \<noteq> Some bid)
                   (getBreakpointsForFilePath (path foundBreakpoint) st);
               st1 = st\<lparr>breakpoints := take foundBreakpointIdx (breakpoints st) @
                                        drop (Suc foundBreakpointIdx) (breakpoints st)\<rparr>
           in case syncBreakpointsForFilePath session (path foundBreakpoint)
                     remainingBreakpoints st1 of
                (Inl message, st2) \<Rightarrow> (Inl message, st2)
              | (Inr _, st2) \<Rightarrow> (Inr (), st2)))"

definition Debugger_removeBreakpoint ::
  "VsDebugSession \<Rightarrow> int \<Rightarrow> string \<Rightarrow> VsDebugSessionTranslator \<Rightarrow> VsDebugSessionTranslator" where
  "Debugger_removeBreakpoint session cid bid st =
     (case removeBreakpoint session bid st of
        (Inl message, st1) \<Rightarrow> sendMessageToClient (error_response cid message) st1
      | (Inr _, st1) \<Rightarrow> sendMessageToClient (empty_response cid) st1)"

text \<open>
  \<open>_setBulkBreakpoints\<close> groups the commands by decoded URL, in the order in which each
  URL first occurs.
\<close>

fun addToGroup ::
  "string \<Rightarrow> SetBreakpointByUrl \<Rightarrow> (string \<times> SetBreakpointByUrl list) list \<Rightarrow>
     (string \<times> SetBreakpointByUrl list) list" where
  "addToGroup u c [] = [(u, [c])]"
| "addToGroup u c ((u', cs) # gs) =
     (if u' = u then (u', cs @ [c]) # gs else (u', cs) # addToGroup u c gs)"

definition groupByUrl ::
  "(string \<times> SetBreakpointByUrl) list \<Rightarrow> (string \<times> SetBreakpointByUrl list) list" where
  "groupByUrl ucs = foldl (\<lambda>gs (u, c). addToGroup u c gs) [] ucs"

text \<open>
  A group after the part of its callback that runs before the first \<open>await\<close>: the new
  records are in the ledger from position \<open>sg_offset\<close> on, and \<open>sg_breakpoints\<close> is the
  list for the adapter, the new records followed by copies of the older records of the
  file whose line is not among the new lines.
\<close>

record staged_group =
  sg_url :: string
  sg_path :: string
  sg_commands :: "SetBreakpointByUrl list"
  sg_offset :: nat
  sg_breakpoints :: "TranslatorBreakpoint list"

definition newTranslatorBp :: "string \<Rightarrow> SetBreakpointByUrl \<Rightarrow> TranslatorBreakpoint" where
  "newTranslatorBp p c =
     \<lparr>breakpointId = None, path = p, lineNumber = cmd_lineNumber c + 1,
      condition = (case cmd_condition c of None \<Rightarrow> [] | Some s \<Rightarrow> s),
      hitCount = 0, resolved = False\<rparr>"

definition stageGroup ::
  "helpers \<Rightarrow> string \<times> SetBreakpointByUrl list \<Rightarrow> VsDebugSessionTranslator \<Rightarrow>
     staged_group \<times> VsDebugSessionTranslator" where
  "stageGroup h g st =
     (let p = uriToPath h (fst g);
          existingTranslatorBreakpoints = getBreakpointsForFilePath p st;
          news = map (newTranslatorBp p) (snd g);
          breakOnLineNumbers = set (map lineNumber news)
      in (\<lparr>sg_url = fst g, sg_path = p, sg_commands = snd g,
           sg_offset = length (breakpoints st),
           sg_breakpoints = news @
             filter (\<lambda>tBp. lineNumber tBp \<notin> breakOnLineNumbers)
               existingTranslatorBreakpoints\<rparr>,
          st\<lparr>breakpoints := breakpoints st @ news\<rparr>))"

fun stageGroups ::
  "helpers \<Rightarrow> (string \<times> SetBreakpointByUrl list) list \<Rightarrow> VsDebugSessionTranslator \<Rightarrow>
     staged_group list \<times> VsDebugSessionTranslator" where
  "stageGroups h [] st = ([], st)"
| "stageGroups h (g # gs) st =
     (let a = stageGroup h g st; r = stageGroups h gs (snd a)
      in (fst a # fst r, snd r))"

definition invariant_failed :: string where
  "invariant_failed = ''Invariant violation''"

text \<open>
  The rest of a group's callback: register the file, synchronise, answer each command
  from the record at its own index. The new records are the ledger's own objects, so
  what the synchronisation changed in them is written back at their positions; the
  changes to the copies of the older records are lost.
\<close>

definition setBreakpointResponse ::
  "string \<Rightarrow> SetBreakpointByUrl \<Rightarrow> TranslatorBreakpoint \<Rightarrow> client_message option" where
  "setBreakpointResponse p c b =
     (case breakpointId b of
        None \<Rightarrow> None
      | Some bid \<Rightarrow>
          Some (setBreakpointByUrl_response (cmd_id c) bid
                  (nuclideDebuggerLocation p (lineNumber b - 1) 0) (resolved b)))"

definition syncGroup ::
  "helpers \<Rightarrow> VsDebugSession \<Rightarrow> staged_group \<Rightarrow> VsDebugSessionTranslator \<Rightarrow>
     (string + client_message list) \<times> VsDebugSessionTranslator" where
  "syncGroup h session g st =
     (case registerFile h (sg_url g) of
        Some message \<Rightarrow> (Inl message, st)
      | None \<Rightarrow>
          (case syncBreakpointsForFilePath session (sg_path g) (sg_breakpoints g) st of
             (Inl message, st1) \<Rightarrow> (Inl message, st1)
           | (Inr bps, st1) \<Rightarrow>
               (let n = length (sg_commands g);
                    st2 = st1\<lparr>breakpoints :=
                            take (sg_offset g) (breakpoints st1) @ take n bps @
                            drop (sg_offset g + n) (breakpoints st1)\<rparr>
                in case those (map2 (setBreakpointResponse (sg_path g))
                                 (sg_commands g) (take n bps)) of
                     None \<Rightarrow> (Inl invariant_failed, st2)
                   | Some responses \<Rightarrow> (Inr responses, st2))))"

text \<open>
  \<open>Promise.all\<close> over the groups: every group runs to its end, the result is the first
  rejection if there is one. The adapter is taken to answer in the order of the requests.
\<close>

fun syncGroups ::
  "helpers \<Rightarrow> VsDebugSession \<Rightarrow> staged_group list \<Rightarrow> VsDebugSessionTranslator \<Rightarrow>
     (string + client_message list) \<times> VsDebugSessionTranslator" where
  "syncGroups h session [] st = (Inr [], st)"
| "syncGroups h session (g # gs) st =
     (let a = syncGroup h session g st; r = syncGroups h session gs (snd a)
      in (case fst a of
            Inl message \<Rightarrow> Inl message
          | Inr responses \<Rightarrow>
              (case fst r of
                 Inl message \<Rightarrow> Inl message
               | Inr others \<Rightarrow> Inr (responses @ others)),
          snd r))"

definition not_ready :: string where
  "not_ready = ''VsDebugSession is not ready for breakpoints''"

definition uri_malformed :: string where
  "uri_malformed = ''URI malformed''"

definition setBulkBreakpoints ::
  "helpers \<Rightarrow> VsDebugSession \<Rightarrow> SetBreakpointByUrl list \<Rightarrow> VsDebugSessionTranslator \<Rightarrow>
     (string + client_message list) \<times> VsDebugSessionTranslator" where
  "setBulkBreakpoints h session setBreakpointsCommands st =
     (if \<not> isReadyForBreakpoints session then (Inl not_ready, st)
      else if setBreakpointsCommands = [] then (Inr [], st)
      else
        (case those (map (\<lambda>c. decodeURIComponent h (cmd_url c)) setBreakpointsCommands) of
           None \<Rightarrow> (Inl uri_malformed, st)
         | Some urls \<Rightarrow>
             (let breakpointCommandsByUrl = groupByUrl (zip urls setBreakpointsCommands);
                  staged = stageGroups h breakpointCommandsByUrl st
              in syncGroups h session (fst staged) (snd staged))))"

text \<open>
  \<open>Debugger.setBreakpointByUrl\<close> once the session runs: the command is passed on alone,
  and an exception becomes its error response.
\<close>

definition Debugger_setBreakpointByUrl ::
  "helpers \<Rightarrow> VsDebugSession \<Rightarrow> SetBreakpointByUrl \<Rightarrow> VsDebugSessionTranslator \<Rightarrow>
     VsDebugSessionTranslator" where
  "Debugger_setBreakpointByUrl h session command st =
     (case setBulkBreakpoints h session [command] st of
        (Inl message, st1) \<Rightarrow> sendMessageToClient (error_response (cmd_id command) message) st1
      | (Inr responses, st1) \<Rightarrow> st1\<lparr>toClient := toClient st1 @ responses\<rparr>)"

subsection \<open>Evaluation\<close>

text \<open>
  \<open>_evaluateOnCallFrame\<close>: the whole body is inside \<open>try\<close>, and the handler of a
  rejected request builds a result from the error's message.
\<close>

definition evaluateOnCallFrame ::
  "VsDebugSession \<Rightarrow> string \<Rightarrow> int option \<Rightarrow> VsDebugSessionTranslator \<Rightarrow>
     EvaluateResponse \<times> VsDebugSessionTranslator" where
  "evaluateOnCallFrame session expression frameId st =
     (let st1 = sendRequest (evaluate_request expression frameId) st
      in case evaluate session expression frameId of
           Inr body \<Rightarrow>
             (\<lparr>result_type = body_type body,
               result_value = Some (body_result body),
               result_description = Some (body_result body),
               result_objectId = (if body_variablesReference body > 0
                                  then Some (String (body_variablesReference body))
                                  else None),
               exceptionDetails = None,
               wasThrown = False\<rparr>, st1)
         | Inl message \<Rightarrow>
             (\<lparr>result_type = ''undefined'', result_value = None, result_description = None,
               result_objectId = None, exceptionDetails = Some message,
               wasThrown = True\<rparr>, st1))"

text \<open>
  The two commands are not wrapped in \<open>catchCommandError\<close>; they pass the result on.
  The call frame id of the command is a numeral, \<open>Number(callFrameId)\<close> its value.
\<close>

definition Debugger_evaluateOnCallFrame ::
  "VsDebugSession \<Rightarrow> int \<Rightarrow> int \<Rightarrow> string \<Rightarrow> VsDebugSessionTranslator \<Rightarrow>
     VsDebugSessionTranslator" where
  "Debugger_evaluateOnCallFrame session cid callFrameId' expression st =
     (let r = evaluateOnCallFrame session expression (Some callFrameId') st
      in sendMessageToClient (evaluate_response cid (fst r)) (snd r))"

definition Runtime_evaluate ::
  "VsDebugSession \<Rightarrow> int \<Rightarrow> string \<Rightarrow> VsDebugSessionTranslator \<Rightarrow> VsDebugSessionTranslator" where
  "Runtime_evaluate session cid expression st =
     (let r = evaluateOnCallFrame session expression None st
      in sendMessageToClient (evaluate_response cid (fst r)) (snd r))"

subsection \<open>Stack frames\<close>

definition getScopesForFrame :: "VsDebugSession \<Rightarrow> int \<Rightarrow> Scope list" where
  "getScopesForFrame session frameId =
     (case scopes session frameId of
        Inl _ \<Rightarrow> []
      | Inr scs \<Rightarrow>
          map (\<lambda>scope. \<lparr>scope_type = vs_name scope, scope_name = vs_name scope,
                         object_description = vs_name scope,
                         objectId = String (vs_variablesReference scope)\<rparr>) scs)"

definition frameScriptId :: "vsStackFrame \<Rightarrow> string" where
  "frameScriptId frame = (case frame_source frame of Some (Some p) \<Rightarrow> p | _ \<Rightarrow> ''N/A'')"

definition translateFrame :: "VsDebugSession \<Rightarrow> vsStackFrame \<Rightarrow> CallFrame" where
  "translateFrame session frame =
     \<lparr>callFrameId = String (frame_id frame),
      functionName = frame_name frame,
      location = nuclideDebuggerLocation (frameScriptId frame)
                   (frame_line frame - 1) (frame_column frame - 1),
      hasSource = (frame_source frame \<noteq> None),
      scopeChain = getScopesForFrame session (frame_id frame)\<rparr>"

text \<open>
  The \<open>levels\<close> option of the stackTrace request of
  \<open>_getTranslatedCallFramesForThread\<close>: sent only when a limit is asked for and the
  adapter loads stack traces lazily.
\<close>

definition stackTraceLevels :: "VsDebugSession \<Rightarrow> int option \<Rightarrow> int option" where
  "stackTraceLevels session levels =
     (if levels \<noteq> None \<and> supportsDelayedStackTraceLoading session then levels else None)"

text \<open>
  \<open>_getTranslatedCallFramesForThread\<close> after its stackTrace request went out: the call
  frames, and the scopes requests made on the way. Any failure yields no frames.
\<close>

definition getTranslatedCallFramesForThread ::
  "helpers \<Rightarrow> VsDebugSession \<Rightarrow> int \<Rightarrow> int option \<Rightarrow> CallFrame list \<times> adapter_request list" where
  "getTranslatedCallFramesForThread h session threadId levels =
     (case stackTrace session threadId (stackTraceLevels session levels) of
        Inl _ \<Rightarrow> ([], [])
      | Inr stackFrames \<Rightarrow>
          (let registered =
                 filter (\<lambda>frame. registerFile h (pathToUri h (frameScriptId frame)) = None)
                   stackFrames
           in (if length registered = length stackFrames
               then map (translateFrame session) stackFrames else [],
               map (\<lambda>frame. scopes_request (frame_id frame)) registered)))"

subsection \<open>Thread events\<close>

definition updateThreadsState ::
  "int list \<Rightarrow> ThreadState \<Rightarrow> VsDebugSessionTranslator \<Rightarrow> VsDebugSessionTranslator" where
  "updateThreadsState threadIds s st =
     foldl (\<lambda>st' threadId.
        st'\<lparr>threadsById :=
          (case map_of (threadsById st') threadId of
             Some threadInfo \<Rightarrow>
               (if s = running
                then AList.update threadId \<lparr>state = s, callFrames = None,
                       callStackLoaded = False, stopReason = None\<rparr> (threadsById st')
                else AList.update threadId (threadInfo\<lparr>state := s\<rparr>) (threadsById st'))
           | None \<Rightarrow>
               AList.update threadId \<lparr>state = s, callFrames = None,
                 callStackLoaded = False, stopReason = None\<rparr> (threadsById st'))\<rparr>)
       st threadIds"

definition describeThread :: "int \<times> ThreadInfo \<Rightarrow> ThreadDescription" where
  "describeThread e =
     (let topCallFrame = (case callFrames (snd e) of
                            None \<Rightarrow> None | Some [] \<Rightarrow> None | Some (f # _) \<Rightarrow> Some f);
          threadName = ''Thread '' @ String (fst e)
      in \<lparr>td_id = fst e, td_name = threadName, td_description = threadName,
          td_address = (case topCallFrame of None \<Rightarrow> [] | Some f \<Rightarrow> functionName f),
          td_location = (case topCallFrame of
                           None \<Rightarrow> nuclideDebuggerLocation ''N/A'' 0 0
                         | Some f \<Rightarrow> location f),
          td_stopReason = (case stopReason (snd e) of
                             None \<Rightarrow> ''running''
                           | Some r \<Rightarrow> if r = [] then ''running'' else r),
          td_hasSource = (case topCallFrame of None \<Rightarrow> False | Some f \<Rightarrow> hasSource f)\<rparr>)"

definition VSP_PROCESS_ID :: int where
  "VSP_PROCESS_ID = - 1"

definition getThreadsUpdatedEvent :: "VsDebugSessionTranslator \<Rightarrow> ThreadsUpdatedEvent" where
  "getThreadsUpdatedEvent st =
     \<lparr>owningProcessId = VSP_PROCESS_ID, threads = map describeThread (threadsById st),
      tu_stopThreadId = None\<rparr>"

definition onThreadEvent ::
  "string \<Rightarrow> int \<Rightarrow> VsDebugSessionTranslator \<Rightarrow> VsDebugSessionTranslator" where
  "onThreadEvent reason threadId st =
     (let st1 =
            (if reason = ''started'' then updateThreadsState [threadId] running st
             else if reason = ''exited'' then
               (let st' = st\<lparr>threadsById := AList.delete threadId (threadsById st)\<rparr>
                in if pausedThreadId st' = Some threadId
                   then updatePausedThreadId None st' else st')
             else st)
      in sendMessageToClient (Debugger_threadsUpdated (getThreadsUpdatedEvent st1)) st1)"

subsection \<open>Stop events\<close>

record StoppedEvent =
  se_threadId :: "int option"
  se_reason :: string
  se_allThreadsStopped :: bool

text \<open>The list \<open>stoppedThreadIds\<close>; \<open>python\<close> says that the adapter is the Python one.\<close>

definition stoppedThreadIds ::
  "bool \<Rightarrow> StoppedEvent \<Rightarrow> VsDebugSessionTranslator \<Rightarrow> int list" where
  "stoppedThreadIds python ev st =
     (let allThreadsStopped =
            (if python \<and> se_reason ev = ''user request'' then True
             else se_allThreadsStopped ev)
      in (case se_threadId ev of
            None \<Rightarrow> []
          | Some threadId \<Rightarrow> if threadId \<ge> 0 then [threadId] else []) @
         (if allThreadsStopped
          then filter (\<lambda>i. Some i \<noteq> se_threadId ev \<and>
                           (case map_of (threadsById st) i of
                              None \<Rightarrow> False
                            | Some threadInfo \<Rightarrow> state threadInfo \<noteq> paused))
                 (map fst (threadsById st))
          else []))"

definition threadSwitchMessageOf :: "VsDebugSessionTranslator \<Rightarrow> string option" where
  "threadSwitchMessageOf st =
     (case (pausedThreadIdPrevious st, pausedThreadId st) of
        (Some previous, Some current) \<Rightarrow>
          (if previous \<noteq> current
           then Some (''Active thread switched from thread #'' @ String previous @
                      '' to thread #'' @ String current)
           else None)
      | _ \<Rightarrow> None)"

text \<open>
  The level limit asked for each stopped thread: none when the active thread is the
  thread of the event, one frame otherwise. The test does not look at the thread whose
  frames are fetched.
\<close>

definition levelsFor :: "StoppedEvent \<Rightarrow> VsDebugSessionTranslator \<Rightarrow> int \<Rightarrow> int option" where
  "levelsFor ev st i =
     (if strict_eq (pausedThreadId st) (se_threadId ev) then None else Some 1)"

text \<open>The handler of the subscription: it receives the paused events of one stop event.\<close>

definition markPaused :: "PausedEvent \<Rightarrow> VsDebugSessionTranslator \<Rightarrow> VsDebugSessionTranslator" where
  "markPaused pausedEvent st =
     (if stopThreadId pausedEvent \<ge> 0
      then st\<lparr>threadsById :=
             AList.update (stopThreadId pausedEvent)
               \<lparr>state = paused, callFrames = Some (pe_callFrames pausedEvent),
                callStackLoaded = (pausedThreadId st = Some (stopThreadId pausedEvent)),
                stopReason = Some (pe_reason pausedEvent)\<rparr>
               (threadsById st)\<rparr>
      else st)"

definition asyncBreak :: PausedEvent where
  "asyncBreak = \<lparr>pe_callFrames = [], pe_reason = ''Async-Break'', stopThreadId = - 1,
     threadSwitchMessage = None\<rparr>"

definition onPausedEvents ::
  "PausedEvent list \<Rightarrow> VsDebugSessionTranslator \<Rightarrow> VsDebugSessionTranslator" where
  "onPausedEvents pausedEvents st =
     (let st1 = foldl (\<lambda>st' pausedEvent. markPaused pausedEvent st') st pausedEvents;
          pausedEvent =
            (case pausedEvents of
               [] \<Rightarrow> Some asyncBreak
             | first # _ \<Rightarrow>
                 if pausedThreadId st1 = Some (stopThreadId first) then Some first else None);
          st2 = (case pausedEvent of
                   Some e \<Rightarrow> sendMessageToClient (Debugger_paused e) st1
                 | None \<Rightarrow> st1);
          threadsUpdatedEvent =
            (getThreadsUpdatedEvent st2)
              \<lparr>tu_stopThreadId :=
                 Some (case pausedThreadId st2 of Some t \<Rightarrow> t | None \<Rightarrow> - 1)\<rparr>
      in sendMessageToClient (Debugger_threadsUpdated threadsUpdatedEvent) st2)"

text \<open>
  One stop event from its arrival to the end of its processing. The stackTrace requests
  of all stopped threads go out when the event arrives. \<open>continuedFirst\<close> says that a
  matching continued event was seen before the stack traces were complete: then
  \<open>takeUntil\<close> drops the result and the subscription's handler does not run.
\<close>

definition onStoppedEvent ::
  "helpers \<Rightarrow> VsDebugSession \<Rightarrow> bool \<Rightarrow> bool \<Rightarrow> StoppedEvent \<Rightarrow> VsDebugSessionTranslator \<Rightarrow>
     VsDebugSessionTranslator" where
  "onStoppedEvent h session python continuedFirst ev st =
     (let ids = stoppedThreadIds python ev st;
          st1 = (if pausedThreadId st = None \<and> ids \<noteq> []
                 then updatePausedThreadId (Some (hd ids)) st else st);
          st2 = foldl (\<lambda>st' i. sendRequest
                         (stackTrace_request i (stackTraceLevels session (levelsFor ev st1 i))) st')
                  st1 ids
      in if continuedFirst then st2
         else
           (let fetched = map (\<lambda>i. getTranslatedCallFramesForThread h session i
                                      (levelsFor ev st1 i)) ids;
                st3 = foldl (\<lambda>st' r. sendRequest r st') st2 (concat (map snd fetched));
                pausedEvents =
                  map2 (\<lambda>i r. \<lparr>pe_callFrames = fst r, pe_reason = se_reason ev,
                                stopThreadId = i,
                                threadSwitchMessage = threadSwitchMessageOf st3\<rparr>)
                    ids fetched
            in onPausedEvents pausedEvents st3))"

subsection \<open>Continued events\<close>

record ContinuedEvent =
  ce_threadId :: "int option"
  ce_allThreadsContinued :: bool

definition onContinuedEvent ::
  "ContinuedEvent \<Rightarrow> VsDebugSessionTranslator \<Rightarrow> VsDebugSessionTranslator" where
  "onContinuedEvent ev st =
     (let allThreadsContinued =
            (case ce_threadId ev of
               None \<Rightarrow> True
             | Some threadId \<Rightarrow> if threadId < 0 then True else ce_allThreadsContinued ev);
          st1 = (if allThreadsContinued \<or> strict_eq (pausedThreadId st) (ce_threadId ev)
                 then updatePausedThreadId None st else st);
          continuedThreadIds =
            (if allThreadsContinued
             then filter (\<lambda>i. case map_of (threadsById st1) i of
                                 None \<Rightarrow> False
                               | Some threadInfo \<Rightarrow> state threadInfo \<noteq> running)
                    (map fst (threadsById st1))
             else (case ce_threadId ev of None \<Rightarrow> [] | Some threadId \<Rightarrow> [threadId]))
      in sendMessageToClient Debugger_resumed
           (updateThreadsState continuedThreadIds running st1))"

section \<open>Example sessions\<close>

text \<open>Collaborators that accept everything, and an adapter that verifies every breakpoint.\<close>

definition no_parse :: "string \<Rightarrow> raw_message option" where
  "no_parse body = None"

definition bad_header :: V8Protocol where
  "bad_header = constructor\<lparr>rawData := ''Foo: bar'' @ TWO_CRLF\<rparr>"

definition plain_helpers :: helpers where
  "plain_helpers = \<lparr>decodeURIComponent = Some, uriToPath = id, pathToUri = id, getPath = id,
     basename = id, registerFile = (\<lambda>_. None)\<rparr>"

definition verifying_adapter :: VsDebugSession where
  "verifying_adapter = \<lparr>isReadyForBreakpoints = True,
     supportsDelayedStackTraceLoading = True,
     pause = (\<lambda>_. None),
     setBreakpoints = (\<lambda>_ conds.
       Inr (map (\<lambda>_. \<lparr>vs_id = None, vs_verified = True, vs_line = None\<rparr>) conds)),
     stackTrace = (\<lambda>_ _. Inr []),
     scopes = (\<lambda>_. Inr []),
     evaluate = (\<lambda>_ _. Inl ''not available''),
     nuclide_continueToLocation = (\<lambda>_. None)\<rparr>"

definition break_at :: "int \<Rightarrow> string \<Rightarrow> int \<Rightarrow> SetBreakpointByUrl" where
  "break_at cid u l = \<lparr>cmd_id = cid, cmd_url = u, cmd_lineNumber = l, cmd_condition = None\<rparr>"

text \<open>Two breakpoints set one after the other on line 10 of the same file.\<close>

definition staged_once :: VsDebugSessionTranslator where
  "staged_once =
     Debugger_setBreakpointByUrl plain_helpers verifying_adapter (break_at 2 ''a'' 10)
       new_translator"

definition staged_twice :: VsDebugSessionTranslator where
  "staged_twice =
     Debugger_setBreakpointByUrl plain_helpers verifying_adapter (break_at 3 ''a'' 10)
       staged_once"

text \<open>Two threads that have started and run.\<close>

definition two_running :: VsDebugSessionTranslator where
  "two_running = onThreadEvent ''started'' 2 (onThreadEvent ''started'' 1 new_translator)"

definition stopped_at :: "int option \<Rightarrow> StoppedEvent" where
  "stopped_at t = \<lparr>se_threadId = t, se_reason = ''breakpoint'', se_allThreadsStopped = True\<rparr>"

definition location_a :: "int \<Rightarrow> int option \<Rightarrow> ContinueToLocation" where
  "location_a l c = \<lparr>ctl_scriptId = ''a'', ctl_lineNumber = l, ctl_columnNumber = c,
     ctl_threadId = None\<rparr>"

definition frame_at :: "int \<Rightarrow> int \<Rightarrow> vsStackFrame" where
  "frame_at l c = \<lparr>frame_id = 1, frame_name = ''main'', frame_source = Some (Some ''a''),
     frame_line = l, frame_column = c\<rparr>"

text \<open>
  A ledger with two records of file \<open>a\<close>, on lines 10 and 20 of the client, and one
  of file \<open>b\<close>; and helpers whose \<open>decodeURIComponent\<close> throws on a lone percent sign.
\<close>

definition staged_three :: VsDebugSessionTranslator where
  "staged_three =
     Debugger_setBreakpointByUrl plain_helpers verifying_adapter (break_at 4 ''b'' 10)
       (Debugger_setBreakpointByUrl plain_helpers verifying_adapter (break_at 3 ''a'' 20)
          staged_once)"

definition strict_decode :: "string \<Rightarrow> string option" where
  "strict_decode s = (if s = ''%'' then None else Some s)"

definition strict_helpers :: helpers where
  "strict_helpers = plain_helpers\<lparr>decodeURIComponent := strict_decode\<rparr>"

section \<open>Observations used in the statements\<close>

definition isPaused :: "client_message \<Rightarrow> bool" where
  "isPaused m = (case m of Debugger_paused _ \<Rightarrow> True | _ \<Rightarrow> False)"

text \<open>The number of \<open>Debugger.paused\<close> messages sent to the client so far.\<close>

definition pausedCount :: "VsDebugSessionTranslator \<Rightarrow> nat" where
  "pausedCount st = length (filter isPaused (toClient st))"

text \<open>The (path, line) pairs of the ledger, one per record.\<close>

definition ledger_keys :: "VsDebugSessionTranslator \<Rightarrow> (string \<times> int) list" where
  "ledger_keys st = map (\<lambda>b. (path b, lineNumber b)) (breakpoints st)"

text \<open>The line and column of every continue-to-location request sent to the adapter.\<close>

definition sentLocations :: "VsDebugSessionTranslator \<Rightarrow> (int \<times> int) list" where
  "sentLocations st =
     concat (map (\<lambda>r. case r of
                        continueToLocation_request a \<Rightarrow> [(arg_line a, arg_column a)]
                      | _ \<Rightarrow> [])
               (toAdapter st))"

text \<open>
  Every write of the active paused thread goes through \<open>_updatePausedThreadId\<close>; for the
  two thread flags a session is the list of the values it was called with.
\<close>

definition selectActive ::
  "int option list \<Rightarrow> VsDebugSessionTranslator \<Rightarrow> VsDebugSessionTranslator" where
  "selectActive us st = foldl (\<lambda>st' v. updatePausedThreadId v st') st us"

definition threadFlags :: "VsDebugSessionTranslator \<Rightarrow> int option \<times> int option" where
  "threadFlags st = (pausedThreadId st, pausedThreadIdPrevious st)"

text \<open>The threads that were the active paused thread at some point of such a session.\<close>

definition activeThreads :: "int option list \<Rightarrow> int list" where
  "activeThreads us = remdups (concat (map (\<lambda>v. case v of None \<Rightarrow> [] | Some t \<Rightarrow> [t]) us))"

section \<open>The transport's sequence numbers\<close>

lemma sendMessage_inv:
  assumes "1 \<le> sequence st" "map msg_seq (outputStream st) = [1 .. sequence st - 1]"
  shows "1 \<le> sequence (sendMessage typ m st) \<and>
    map msg_seq (outputStream (sendMessage typ m st)) = [1 .. sequence (sendMessage typ m st) - 1]"
  using assms by (simp add: sendMessage_def upto_rec2)

lemma transport_step_inv:
  assumes "1 \<le> sequence st" "map msg_seq (outputStream st) = [1 .. sequence st - 1]"
  shows "1 \<le> sequence (transport_step st c) \<and>
    map msg_seq (outputStream (transport_step st c)) = [1 .. sequence (transport_step st c) - 1]"
proof (cases c)
  case (send command args)
  then show ?thesis using sendMessage_inv[OF assms] by (simp add: doSend_def Let_def)
next
  case (send_response resp)
  then show ?thesis using sendMessage_inv[OF assms] assms by (simp add: sendResponse_def)
next
  case (send_message kind message)
  then show ?thesis using sendMessage_inv[OF assms] by simp
qed

lemma foldl_transport_inv:
  "1 \<le> sequence st \<Longrightarrow> map msg_seq (outputStream st) = [1 .. sequence st - 1] \<Longrightarrow>
   1 \<le> sequence (foldl transport_step st cs) \<and>
   map msg_seq (outputStream (foldl transport_step st cs)) =
     [1 .. sequence (foldl transport_step st cs) - 1]"
proof (induction cs arbitrary: st)
  case Nil
  then show ?case by simp
next
  case (Cons c cs)
  from transport_step_inv[OF Cons.prems] Cons.IH show ?case by simp
qed

text \<open>
  C5. Whatever requests, responses and other messages a session sends, in whatever
  order, the \<open>seq\<close> values of the messages written to the adapter are exactly 1, 2,
  3, ... up to the number of messages written, in the order of writing.
\<close>

theorem seq_dense:
  "map msg_seq (outputStream (transport_run calls)) =
     [1 .. int (length (outputStream (transport_run calls)))]"
proof -
  have inv: "map msg_seq (outputStream (transport_run calls)) =
      [1 .. sequence (transport_run calls) - 1]"
    and pos: "1 \<le> sequence (transport_run calls)"
    using foldl_transport_inv[of constructor calls]
    by (simp_all add: transport_run_def constructor_def)
  from inv have "length (outputStream (transport_run calls)) =
      length [1 .. sequence (transport_run calls) - 1]"
    by (metis length_map)
  with pos have "int (length (outputStream (transport_run calls))) =
      sequence (transport_run calls) - 1"
    by simp
  with inv show ?thesis by simp
qed

text \<open>
  A session with two requests, an event and two responses, one of which is refused
  because it already carries a sequence number: four messages are written, numbered 1
  to 4.
\<close>

theorem seq_dense_witness:
  "map msg_seq (outputStream (transport_run
      [send ''initialize'' ''{}'',
       send_response \<lparr>msg_type = None, msg_seq = 0, msg_command = ''runInTerminal'',
         msg_payload = ''{}''\<rparr>,
       send_response \<lparr>msg_type = None, msg_seq = 7, msg_command = ''runInTerminal'',
         msg_payload = ''{}''\<rparr>,
       send_message event \<lparr>msg_type = None, msg_seq = 0, msg_command = ''output'',
         msg_payload = ''{}''\<rparr>,
       send ''launch'' ''{}''])) = [1, 2, 3, 4]"
  using seq_dense [of "[send ''initialize'' ''{}'',
       send_response \<lparr>msg_type = None, msg_seq = 0, msg_command = ''runInTerminal'',
         msg_payload = ''{}''\<rparr>,
       send_response \<lparr>msg_type = None, msg_seq = 7, msg_command = ''runInTerminal'',
         msg_payload = ''{}''\<rparr>,
       send_message event \<lparr>msg_type = None, msg_seq = 0, msg_command = ''output'',
         msg_payload = ''{}''\<rparr>,
       send ''launch'' ''{}'']"]
  by (simp add: transport_run_def constructor_def doSend_def sendResponse_def sendMessage_def
      upto_rec1)

section \<open>The decoder and a header without a length\<close>

text \<open>
  The decoder does read a well-formed frame: its body reaches \<open>_dispatch\<close>, where the
  parser of the example rejects it.
\<close>

lemma handleData_frame:
  "snd (handleData no_parse
     (constructor\<lparr>rawData := ''Content-Length: 2'' @ TWO_CRLF @ ''{}''\<rparr>)) =
     [onServerError ''{}'']"
  by code_simp

text \<open>A field found in a buffer is also found when more bytes follow the buffer.\<close>

lemma execContentLength_append:
  "execContentLength (xs @ ys) = None \<Longrightarrow> execContentLength xs = None"
proof (induction xs)
  case Nil
  then show ?case by simp
next
  case (Cons c s)
  let ?found = "\<lambda>zs. take 16 zs = ''Content-Length: '' \<and> drop 16 zs \<noteq> [] \<and>
                      isDigit (hd (drop 16 zs))"
  from Cons.prems have no: "\<not> ?found (c # s @ ys)" and rest: "execContentLength (s @ ys) = None"
    by (simp_all add: Let_def split: if_splits)
  have "\<not> ?found (c # s)"
  proof
    assume f: "?found (c # s)"
    then have "16 < length (c # s)"
      by (cases "16 < length (c # s)") simp_all
    with f have "?found ((c # s) @ ys)"
      by (simp del: append_Cons)
    with no show False by simp
  qed
  with Cons.IH [OF rest] show ?case
    by (simp add: Let_def)
qed

text \<open>Every error the decoder reports is a body that the parser refused.\<close>

lemma dispatch_errors:
  "onServerError e \<in> set (snd (dispatch parse body pending)) \<Longrightarrow> e = body \<and> parse e = None"
  by (auto simp: dispatch_def split: option.splits raw_message.splits if_splits)

lemma handleData_errors:
  "onServerError e \<in> set (snd (handleData parse st)) \<Longrightarrow> e \<noteq> [] \<and> parse e = None"
proof (induction parse st rule: handleData.induct)
  case (1 parse st)
  show ?case
  proof (cases "contentLength st \<ge> 0")
    case True
    show ?thesis
    proof (cases "int (length (rawData st)) \<ge> contentLength st")
      case False
      with True "1.prems" show ?thesis
        by (subst (asm) handleData.simps) simp
    next
      case enough: True
      define message where "message = take (nat (contentLength st)) (rawData st)"
      define st1 where "st1 = st\<lparr>rawData := drop (nat (contentLength st)) (rawData st),
                                contentLength := -1\<rparr>"
      define d where "d = (if length message > 0
                           then dispatch parse message (pendingRequests st1)
                           else (pendingRequests st1, []))"
      have out: "snd (handleData parse st) =
                 snd d @ snd (handleData parse (st1\<lparr>pendingRequests := fst d\<rparr>))"
        by (subst handleData.simps)
           (simp only: True enough if_True Let_def snd_conv fst_conv message_def st1_def
              d_def)
      from "1.prems" out
      consider "onServerError e \<in> set (snd d)"
        | "onServerError e \<in> set (snd (handleData parse (st1\<lparr>pendingRequests := fst d\<rparr>)))"
        by auto
      then show ?thesis
      proof cases
        case 1
        then have "length message > 0" and "e = message \<and> parse e = None"
          using dispatch_errors [of e parse message "pendingRequests st1"]
          by (auto simp: d_def split: if_splits)
        then show ?thesis by auto
      next
        case 2
        from "1.IH"(1) [OF True enough message_def st1_def d_def 2]
        show ?thesis .
      qed
    qed
  next
    case False
    show ?thesis
    proof (cases "indexOf (rawData st) TWO_CRLF")
      case None
      with False "1.prems" show ?thesis
        by (subst (asm) handleData.simps) simp
    next
      case (Some idx)
      show ?thesis
      proof (cases "execContentLength (rawData st)")
        case None
        with False Some "1.prems" show ?thesis
          by (subst (asm) handleData.simps) simp
      next
        case found: (Some digits)
        from "1.prems" False Some found
        have "onServerError e \<in> set (snd (handleData parse
                (st\<lparr>contentLength := Number digits,
                    rawData := drop (idx + length TWO_CRLF) (rawData st)\<rparr>)))"
          by (subst (asm) handleData.simps) simp
        from "1.IH"(2) [OF False Some found this]
        show ?thesis .
      qed
    qed
  qed
qed

lemma handleData_waits:
  "contentLength st < 0 \<Longrightarrow> execContentLength (rawData st) = None \<Longrightarrow>
   handleData parse st = (st, [])"
  by (subst handleData.simps) (simp split: option.splits)

lemma receive_waits:
  "contentLength st < 0 \<Longrightarrow> execContentLength (rawData st @ concat chunks) = None \<Longrightarrow>
   receive parse chunks st = (st\<lparr>rawData := rawData st @ concat chunks\<rparr>, [])"
proof (induction chunks arbitrary: st)
  case Nil
  then show ?case by simp
next
  case (Cons d ds)
  define st1 where "st1 = st\<lparr>rawData := rawData st @ d\<rparr>"
  from Cons.prems(2) have "execContentLength ((rawData st @ d) @ concat ds) = None"
    by simp
  then have none: "execContentLength (rawData st @ d) = None"
    by (rule execContentLength_append)
  with Cons.prems(1) have step: "onData parse d st = (st1, [])"
    by (simp add: onData_def st1_def handleData_waits)
  have "receive parse ds st1 = (st1\<lparr>rawData := rawData st1 @ concat ds\<rparr>, [])"
    using Cons.prems by (intro Cons.IH) (simp_all add: st1_def)
  with step show ?case
    by (simp add: Let_def st1_def)
qed

lemma receive_errors:
  "onServerError e \<in> set (snd (receive parse chunks st)) \<Longrightarrow> e \<noteq> [] \<and> parse e = None"
proof (induction chunks arbitrary: st)
  case Nil
  then show ?case by simp
next
  case (Cons d ds)
  from Cons.prems
  consider "onServerError e \<in> set (snd (onData parse d st))"
    | "onServerError e \<in> set (snd (receive parse ds (fst (onData parse d st))))"
    by (auto simp: Let_def)
  then show ?case
  proof cases
    case 1
    then show ?thesis
      unfolding onData_def by (rule handleData_errors)
  next
    case 2
    then show ?thesis by (rule Cons.IH)
  qed
qed

text \<open>
  C4, as stated, fails. The buffer \<open>Foo: bar\r\n\r\n\<close> holds a complete header
  terminator and its header region has no \<open>Content-Length\<close> field, yet the decoder
  calls no hook at all, \<open>onServerError\<close> included, and keeps its state.
\<close>

theorem bad_header_counterexample:
  "indexOf (rawData bad_header) TWO_CRLF = Some 8 \<and>
   execContentLength (take 8 (rawData bad_header)) = None \<and>
   handleData no_parse bad_header = (bad_header, [])"
  by code_simp

text \<open>
  C4, amended. The decoder never reports a header. While it waits for a header and the
  bytes received so far hold no \<open>Content-Length: <digits>\<close>, whether or not a header
  terminator is among them, every chunk of data is only appended to the buffer and no
  hook is called: the transport waits, for as long as no such field arrives. For any
  state and any data, every error the decoder reports through \<open>onServerError\<close> is a
  non-empty message body that was framed and then refused by the parser in
  \<open>_dispatch\<close>.
\<close>

theorem bad_header_waits:
  "(contentLength st < 0 \<and> execContentLength (rawData st @ concat chunks) = None \<longrightarrow>
      receive parse chunks st = (st\<lparr>rawData := rawData st @ concat chunks\<rparr>, [])) \<and>
   (\<forall>e. onServerError e \<in> set (snd (receive parse chunks st)) \<longrightarrow>
      e \<noteq> [] \<and> parse e = None)"
  using receive_waits [of st chunks parse] receive_errors [of _ parse chunks st]
  by blast

text \<open>
  The header without a length followed by more bytes leaves the transport waiting; a
  frame whose body the parser refuses is the error that is reported.
\<close>

theorem bad_header_waits_witness:
  "contentLength constructor < 0 \<and>
   execContentLength (rawData constructor @ concat [''Foo: bar'' @ TWO_CRLF, ''{}'']) = None \<and>
   receive no_parse [''Foo: bar'' @ TWO_CRLF, ''{}''] constructor =
     (constructor\<lparr>rawData := ''Foo: bar'' @ TWO_CRLF @ ''{}''\<rparr>, []) \<and>
   snd (receive no_parse [''Content-Length: 2'' @ TWO_CRLF, ''{}''] constructor) =
     [onServerError ''{}''] \<and>
   no_parse ''{}'' = None"
proof -
  have h1: "contentLength constructor < 0"
    by (simp add: constructor_def)
  have h2: "execContentLength
              (rawData constructor @ concat [''Foo: bar'' @ TWO_CRLF, ''{}'']) = None"
    by code_simp
  have reported: "snd (receive no_parse [''Content-Length: 2'' @ TWO_CRLF, ''{}''] constructor) =
     [onServerError ''{}'']"
    by code_simp
  from bad_header_waits [of constructor "[''Foo: bar'' @ TWO_CRLF, ''{}'']" no_parse] h1 h2
  have waits: "receive no_parse [''Foo: bar'' @ TWO_CRLF, ''{}''] constructor =
     (constructor\<lparr>rawData := rawData constructor @
        concat [''Foo: bar'' @ TWO_CRLF, ''{}'']\<rparr>, [])"
    by blast
  from bad_header_waits [of constructor "[''Content-Length: 2'' @ TWO_CRLF, ''{}'']" no_parse]
    reported
  have "no_parse ''{}'' = None"
    by simp
  with h1 h2 reported waits show ?thesis
    by (simp add: constructor_def)
qed

section \<open>Removing a breakpoint that is not in the ledger\<close>

lemma findIndex_None: "findIndex P xs = None \<longleftrightarrow> (\<forall>x\<in>set xs. \<not> P x)"
  by (induction xs) auto

text \<open>
  C9. When no record of the ledger has the id of a \<open>Debugger.removeBreakpoint\<close>
  command, the command is answered by an empty response and nothing else changes: the
  ledger is the same and no request goes to the adapter.
\<close>

theorem remove_unknown_noop:
  assumes "\<forall>bp\<in>set (breakpoints st). breakpointId bp \<noteq> Some bid"
  shows "Debugger_removeBreakpoint session cid bid st =
           st\<lparr>toClient := toClient st @ [empty_response cid]\<rparr>"
proof -
  from assms have "findIndex (\<lambda>bp. breakpointId bp = Some bid) (breakpoints st) = None"
    by (simp add: findIndex_None)
  then show ?thesis
    by (simp add: Debugger_removeBreakpoint_def removeBreakpoint_def sendMessageToClient_def)
qed

theorem remove_unknown_noop_witness:
  "map breakpointId (breakpoints staged_twice) = [Some ''1'', Some ''2''] \<and>
   breakpoints (Debugger_removeBreakpoint verifying_adapter 4 ''7'' staged_twice) =
     breakpoints staged_twice \<and>
   toAdapter (Debugger_removeBreakpoint verifying_adapter 4 ''7'' staged_twice) =
     toAdapter staged_twice \<and>
   toClient (Debugger_removeBreakpoint verifying_adapter 4 ''7'' staged_twice) =
     toClient staged_twice @ [empty_response 4]"
proof -
  have ids: "map breakpointId (breakpoints staged_twice) = [Some ''1'', Some ''2'']"
    by code_simp
  have h: "\<forall>bp\<in>set (breakpoints staged_twice). breakpointId bp \<noteq> Some ''7''"
    by code_simp
  from remove_unknown_noop [OF h, of verifying_adapter 4] ids show ?thesis by simp
qed

section \<open>Evaluation always answers with a result\<close>

text \<open>
  C10. \<open>Debugger.evaluateOnCallFrame\<close> and \<open>Runtime.evaluate\<close> send one evaluate request
  and answer with a result response, for every expression, frame and adapter; when the
  adapter rejects the request with a message, the result has type \<open>undefined\<close>,
  \<open>wasThrown\<close> is true and the message is the exception details.
\<close>

theorem evaluate_always_result:
  "(\<exists>r. Debugger_evaluateOnCallFrame session cid frameId expression st =
          (sendRequest (evaluate_request expression (Some frameId)) st)
            \<lparr>toClient := toClient st @ [evaluate_response cid r]\<rparr> \<and>
        (\<forall>message. evaluate session expression (Some frameId) = Inl message \<longrightarrow>
           r = \<lparr>result_type = ''undefined'', result_value = None, result_description = None,
                result_objectId = None, exceptionDetails = Some message, wasThrown = True\<rparr>)) \<and>
   (\<exists>r. Runtime_evaluate session cid expression st =
          (sendRequest (evaluate_request expression None) st)
            \<lparr>toClient := toClient st @ [evaluate_response cid r]\<rparr> \<and>
        (\<forall>message. evaluate session expression None = Inl message \<longrightarrow>
           r = \<lparr>result_type = ''undefined'', result_value = None, result_description = None,
                result_objectId = None, exceptionDetails = Some message, wasThrown = True\<rparr>))"
  by (auto simp: Debugger_evaluateOnCallFrame_def Runtime_evaluate_def evaluateOnCallFrame_def
      sendMessageToClient_def sendRequest_def Let_def split: sum.splits)

theorem evaluate_always_result_witness:
  "evaluate verifying_adapter ''x'' None = Inl ''not available'' \<and>
   evaluate verifying_adapter ''x'' (Some 1) = Inl ''not available'' \<and>
   toClient (Runtime_evaluate verifying_adapter 9 ''x'' new_translator) =
     [evaluate_response 9
        \<lparr>result_type = ''undefined'', result_value = None, result_description = None,
         result_objectId = None, exceptionDetails = Some ''not available'',
         wasThrown = True\<rparr>] \<and>
   toClient (Debugger_evaluateOnCallFrame verifying_adapter 9 1 ''x'' new_translator) =
     [evaluate_response 9
        \<lparr>result_type = ''undefined'', result_value = None, result_description = None,
         result_objectId = None, exceptionDetails = Some ''not available'',
         wasThrown = True\<rparr>]"
proof -
  have e: "evaluate verifying_adapter ''x'' None = Inl ''not available''"
    "evaluate verifying_adapter ''x'' (Some 1) = Inl ''not available''"
    by (simp_all add: verifying_adapter_def)
  from evaluate_always_result [of verifying_adapter 9 1 "''x''" new_translator] e
  have "\<exists>r. Debugger_evaluateOnCallFrame verifying_adapter 9 1 ''x'' new_translator =
          (sendRequest (evaluate_request ''x'' (Some 1)) new_translator)
            \<lparr>toClient := toClient new_translator @ [evaluate_response 9 r]\<rparr> \<and>
           r = \<lparr>result_type = ''undefined'', result_value = None, result_description = None,
                result_objectId = None, exceptionDetails = Some ''not available'',
                wasThrown = True\<rparr>"
    and "\<exists>r. Runtime_evaluate verifying_adapter 9 ''x'' new_translator =
          (sendRequest (evaluate_request ''x'' None) new_translator)
            \<lparr>toClient := toClient new_translator @ [evaluate_response 9 r]\<rparr> \<and>
           r = \<lparr>result_type = ''undefined'', result_value = None, result_description = None,
                result_objectId = None, exceptionDetails = Some ''not available'',
                wasThrown = True\<rparr>"
    by blast+
  with e show ?thesis by (auto simp: new_translator_def)
qed

section \<open>The previous active thread\<close>

lemma selectActive_snoc:
  "selectActive (us @ [v]) st = updatePausedThreadId v (selectActive us st)"
  by (simp add: selectActive_def)

lemma selectActive_active:
  "pausedThreadId (selectActive us st) = (if us = [] then pausedThreadId st else last us)"
  by (induction us rule: rev_induct)
     (simp_all add: selectActive_snoc, simp_all add: selectActive_def updatePausedThreadId_def
        Let_def)

lemma set_butlast_last: "us \<noteq> [] \<Longrightarrow> set us = insert (last us) (set (butlast us))"
proof -
  assume "us \<noteq> []"
  then have "us = butlast us @ [last us]" by simp
  then have "set us = set (butlast us @ [last us])" by simp
  then show ?thesis by simp
qed

lemma selectActive_previous:
  "pausedThreadId st = None \<Longrightarrow> pausedThreadIdPrevious st = None \<Longrightarrow>
   pausedThreadIdPrevious (selectActive us st) \<noteq> None \<longleftrightarrow> (\<exists>v\<in>set (butlast us). v \<noteq> None)"
proof (induction us rule: rev_induct)
  case Nil
  then show ?case by (simp add: selectActive_def)
next
  case (snoc v us)
  have "pausedThreadIdPrevious (selectActive (us @ [v]) st) \<noteq> None \<longleftrightarrow>
        pausedThreadId (selectActive us st) \<noteq> None \<or>
        pausedThreadIdPrevious (selectActive us st) \<noteq> None"
    by (simp add: selectActive_snoc updatePausedThreadId_def Let_def)
  also have "\<dots> \<longleftrightarrow> (us \<noteq> [] \<and> last us \<noteq> None) \<or> (\<exists>v\<in>set (butlast us). v \<noteq> None)"
    using snoc by (simp add: selectActive_active)
  also have "\<dots> \<longleftrightarrow> (\<exists>v\<in>set us. v \<noteq> None)"
  proof (cases "us = []")
    case True
    then show ?thesis by simp
  next
    case False
    from set_butlast_last [OF False] False show ?thesis by auto
  qed
  finally show ?case by simp
qed

lemma set_activeThreads: "set (activeThreads us) = {t. Some t \<in> set us}"
  by (auto simp: activeThreads_def split: option.splits)

lemma two_active_threads:
  assumes "2 \<le> length (activeThreads us)"
  shows "\<exists>a b. a \<noteq> b \<and> Some a \<in> set us \<and> Some b \<in> set us"
proof (rule ccontr)
  assume "\<not> ?thesis"
  then have "\<forall>a\<in>set (activeThreads us). \<forall>b\<in>set (activeThreads us). a = b"
    by (auto simp: set_activeThreads)
  then have "card (set (activeThreads us)) \<le> Suc 0"
    by (simp add: card_le_Suc0_iff_eq)
  moreover have "distinct (activeThreads us)"
    by (simp add: activeThreads_def)
  ultimately have "length (activeThreads us) \<le> Suc 0"
    by (simp add: distinct_card)
  with assms show False by simp
qed

text \<open>
  The handlers change the two thread flags through \<open>_updatePausedThreadId\<close> only: each
  leaves them alone or makes one call.
\<close>

lemma threadFlags_updateThreadsState:
  "threadFlags (updateThreadsState ids s st) = threadFlags st"
proof -
  have "threadFlags (foldl (\<lambda>st' i. st'\<lparr>threadsById := f st' i\<rparr>) st ids) = threadFlags st"
    for f
    by (induction ids arbitrary: st) (simp_all add: threadFlags_def)
  then show ?thesis
    by (simp add: updateThreadsState_def)
qed

lemma threadFlags_sendRequests:
  "threadFlags (foldl (\<lambda>st' r. sendRequest (f st' r) st') st rs) = threadFlags st"
  by (induction rs arbitrary: st) (simp_all add: sendRequest_def threadFlags_def)

lemma threadFlags_markPaused: "threadFlags (markPaused e st) = threadFlags st"
  by (simp add: markPaused_def threadFlags_def)

lemma threadFlags_markPaused_fold:
  "threadFlags (foldl (\<lambda>st' e. markPaused e st') st es) = threadFlags st"
  by (induction es arbitrary: st) (simp_all add: markPaused_def threadFlags_def)

lemma threadFlags_onPausedEvents: "threadFlags (onPausedEvents es st) = threadFlags st"
proof -
  have "threadFlags (sendMessageToClient m st') = threadFlags st'" for m st'
    by (simp add: sendMessageToClient_def threadFlags_def)
  then show ?thesis
    by (cases es)
       (simp_all add: onPausedEvents_def Let_def threadFlags_markPaused_fold
          threadFlags_markPaused)
qed

lemma threadFlags_commands:
  "threadFlags (Debugger_pause session cid st) = threadFlags (updatePausedThreadId None st)"
  "threadFlags (Debugger_selectThread cid t st) = threadFlags (updatePausedThreadId t st)"
  by (simp_all add: Debugger_pause_def Debugger_selectThread_def Let_def sendRequest_def
      sendMessageToClient_def threadFlags_def split: option.splits)

lemma threadFlags_onThreadEvent:
  "threadFlags (onThreadEvent reason t st) = threadFlags st \<or>
   threadFlags (onThreadEvent reason t st) = threadFlags (updatePausedThreadId None st)"
  using threadFlags_updateThreadsState [of "[t]" running st]
  by (simp add: onThreadEvent_def Let_def sendMessageToClient_def threadFlags_def
      updatePausedThreadId_def)

lemma threadFlags_onContinuedEvent:
  "threadFlags (onContinuedEvent ev st) = threadFlags st \<or>
   threadFlags (onContinuedEvent ev st) = threadFlags (updatePausedThreadId None st)"
proof -
  have "threadFlags (sendMessageToClient m st') = threadFlags st'" for m st'
    by (simp add: sendMessageToClient_def threadFlags_def)
  then show ?thesis
    by (simp add: onContinuedEvent_def Let_def threadFlags_updateThreadsState)
qed

lemma threadFlags_onStoppedEvent:
  "threadFlags (onStoppedEvent h session python continuedFirst ev st) = threadFlags st \<or>
   (\<exists>t. threadFlags (onStoppedEvent h session python continuedFirst ev st) =
         threadFlags (updatePausedThreadId (Some t) st))"
  by (simp add: onStoppedEvent_def Let_def threadFlags_onPausedEvents threadFlags_sendRequests)
     blast

text \<open>
  C7, as stated, fails. Select thread 7, then pause: the previous active thread is set
  although thread 7 is the only thread that was ever active.
\<close>

theorem previous_one_thread_counterexample:
  "pausedThreadIdPrevious
     (Debugger_pause verifying_adapter 2 (Debugger_selectThread 1 (Some 7) new_translator)) =
     Some 7 \<and>
   pausedThreadIdPrevious (selectActive [Some 7, None] new_translator) = Some 7 \<and>
   activeThreads [Some 7, None] = [7]"
  by code_simp

text \<open>
  C7, amended. In a session, which for the two thread flags is the list of the values
  given to \<open>_updatePausedThreadId\<close>, the previous active thread is non-null exactly when
  some call before the last one set a thread, that is, when an active thread has been
  replaced or cleared. In particular it is non-null whenever two distinct threads have
  been active; it is also non-null after a single thread was active and then cleared
  or selected again.
\<close>

theorem previous_iff_replaced:
  "(pausedThreadIdPrevious (selectActive us new_translator) \<noteq> None \<longleftrightarrow>
      (\<exists>v\<in>set (butlast us). v \<noteq> None)) \<and>
   (2 \<le> length (activeThreads us) \<longrightarrow>
      pausedThreadIdPrevious (selectActive us new_translator) \<noteq> None)"
proof -
  have iff: "pausedThreadIdPrevious (selectActive us new_translator) \<noteq> None \<longleftrightarrow>
      (\<exists>v\<in>set (butlast us). v \<noteq> None)"
    by (rule selectActive_previous) (simp_all add: new_translator_def)
  moreover have "\<exists>v\<in>set (butlast us). v \<noteq> None" if "2 \<le> length (activeThreads us)"
  proof -
    from two_active_threads [OF that] obtain a b
      where ab: "a \<noteq> b" "Some a \<in> set us" "Some b \<in> set us" by blast
    from ab(2) have ne: "us \<noteq> []" by auto
    note s = set_butlast_last [OF ne]
    have "Some a \<in> set (butlast us) \<or> Some b \<in> set (butlast us)"
    proof (cases "last us = Some a")
      case True
      with ab(1) have "last us \<noteq> Some b" by simp
      with ab(3) s show ?thesis by auto
    next
      case False
      with ab(2) s show ?thesis by auto
    qed
    then show ?thesis by auto
  qed
  ultimately show ?thesis by blast
qed

theorem previous_iff_replaced_witness:
  "activeThreads [Some 1, Some 2] = [1, 2] \<and>
   pausedThreadIdPrevious (selectActive [Some 1, Some 2] new_translator) \<noteq> None"
proof -
  have a: "activeThreads [Some 1, Some 2] = [1, 2]"
    by code_simp
  then have "2 \<le> length (activeThreads [Some 1, Some 2])"
    by simp
  with previous_iff_replaced [of "[Some 1, Some 2]"] a show ?thesis by blast
qed

section \<open>One paused message for each stop event\<close>

lemma toClient_sendRequests:
  "toClient (foldl (\<lambda>st' r. sendRequest (f st' r) st') st rs) = toClient st"
  by (induction rs arbitrary: st) (simp_all add: sendRequest_def)

lemma toClient_markPaused: "toClient (markPaused e st) = toClient st"
  by (simp add: markPaused_def)

lemma toClient_markPaused_fold:
  "toClient (foldl (\<lambda>st' e. markPaused e st') st es) = toClient st"
  by (induction es arbitrary: st) (simp_all add: toClient_markPaused)

lemma toClient_updatePausedThreadId: "toClient (updatePausedThreadId v st) = toClient st"
  by (simp add: updatePausedThreadId_def Let_def)

lemma pausedCount_onPausedEvents:
  "toClient st' = toClient st \<Longrightarrow> pausedCount (onPausedEvents es st') \<le> Suc (pausedCount st)"
  by (simp add: onPausedEvents_def pausedCount_def sendMessageToClient_def Let_def isPaused_def
      toClient_markPaused_fold toClient_markPaused split: list.splits)

text \<open>
  C2. Processing one stopped event of the adapter, whatever threads it expands to and
  whether or not a continued event cuts it short, adds at most one \<open>Debugger.paused\<close>
  to the messages sent to the client.
\<close>

theorem paused_at_most_once:
  "pausedCount (onStoppedEvent h session python continuedFirst ev st) \<le> Suc (pausedCount st)"
proof (cases continuedFirst)
  case True
  then show ?thesis
    by (simp add: onStoppedEvent_def Let_def pausedCount_def toClient_sendRequests
        toClient_updatePausedThreadId)
next
  case False
  have "pausedCount (onStoppedEvent h session python False ev st) \<le> Suc (pausedCount st)"
    apply (simp add: onStoppedEvent_def Let_def)
    apply (intro conjI impI pausedCount_onPausedEvents)
    apply (simp_all add: toClient_sendRequests toClient_updatePausedThreadId)
    done
  with False show ?thesis by simp
qed

text \<open>Two running threads stop together: the client is told once, about thread 1.\<close>

theorem paused_at_most_once_witness:
  "pausedCount two_running = 0 \<and>
   pausedCount (onStoppedEvent plain_helpers verifying_adapter False False
     (stopped_at (Some 1)) two_running) = 1"
proof -
  have "pausedCount (onStoppedEvent plain_helpers verifying_adapter False False
     (stopped_at (Some 1)) two_running) = 1"
    by code_simp
  moreover have "pausedCount two_running = 0"
    by code_simp
  ultimately show ?thesis
    using paused_at_most_once [of plain_helpers verifying_adapter False False
        "stopped_at (Some 1)" two_running]
    by simp
qed

section \<open>The ledger and the lines sent to the adapter\<close>

lemma assignIds_paths:
  "length vs = length bs \<Longrightarrow> map path (fst (assignIds vs bs l)) = map path bs"
  by (induction vs bs l rule: assignIds.induct)
     (simp_all add: Let_def tryUpdateBreakpoint_def split: option.splits)

lemma sync_props:
  assumes "syncBreakpointsForFilePath session p bps st = (r, st1)"
  shows "toAdapter st1 = toAdapter st @
           [setBreakpoints_request p (map lineNumber bps)
              (map (\<lambda>bp. (lineNumber bp, condition bp)) bps)]"
    and "breakpoints st1 = breakpoints st"
    and "r = Inr bps' \<Longrightarrow> map path bps' = map path bps"
  using assms
  by (auto simp: syncBreakpointsForFilePath_def Let_def sendRequest_def assignIds_paths
      split: sum.splits if_splits)

lemma syncGroup_props:
  assumes reg: "registerFile h (sg_url g) = None"
  shows "toAdapter (snd (syncGroup h session g st)) = toAdapter st @
           [setBreakpoints_request (sg_path g) (map lineNumber (sg_breakpoints g))
              (map (\<lambda>bp. (lineNumber bp, condition bp)) (sg_breakpoints g))]"
    and "breakpoints (snd (syncGroup h session g st)) = breakpoints st \<or>
         (\<exists>bps'. map path bps' = map path (sg_breakpoints g) \<and>
            breakpoints (snd (syncGroup h session g st)) =
              take (sg_offset g) (breakpoints st) @ take (length (sg_commands g)) bps' @
              drop (sg_offset g + length (sg_commands g)) (breakpoints st))"
proof -
  obtain r st1 where sync:
    "syncBreakpointsForFilePath session (sg_path g) (sg_breakpoints g) st = (r, st1)"
    by (cases "syncBreakpointsForFilePath session (sg_path g) (sg_breakpoints g) st")
  note props = sync_props [OF sync]
  show "toAdapter (snd (syncGroup h session g st)) = toAdapter st @
           [setBreakpoints_request (sg_path g) (map lineNumber (sg_breakpoints g))
              (map (\<lambda>bp. (lineNumber bp, condition bp)) (sg_breakpoints g))]"
    using reg props(1)
    by (cases r) (simp_all add: syncGroup_def sync Let_def split: option.splits)
  show "breakpoints (snd (syncGroup h session g st)) = breakpoints st \<or>
         (\<exists>bps'. map path bps' = map path (sg_breakpoints g) \<and>
            breakpoints (snd (syncGroup h session g st)) =
              take (sg_offset g) (breakpoints st) @ take (length (sg_commands g)) bps' @
              drop (sg_offset g + length (sg_commands g)) (breakpoints st))"
  proof (cases r)
    case (Inl message)
    then show ?thesis
      using reg props(2) by (simp add: syncGroup_def sync)
  next
    case (Inr bps')
    with props(3) have "map path bps' = map path (sg_breakpoints g)" by simp
    moreover have "breakpoints (snd (syncGroup h session g st)) =
              take (sg_offset g) (breakpoints st) @ take (length (sg_commands g)) bps' @
              drop (sg_offset g + length (sg_commands g)) (breakpoints st)"
      using reg props(2) Inr
      by (simp add: syncGroup_def sync Let_def split: option.splits)
    ultimately show ?thesis by blast
  qed
qed

lemma setBulkBreakpoints_single:
  assumes "isReadyForBreakpoints session" "decodeURIComponent h (cmd_url c) = Some u"
  shows "snd (setBulkBreakpoints h session [c] st) =
           snd (syncGroup h session (fst (stageGroup h (u, [c]) st))
                  (snd (stageGroup h (u, [c]) st)))"
  using assms
  by (simp add: setBulkBreakpoints_def groupByUrl_def Let_def)

lemma Debugger_setBreakpointByUrl_state:
  "breakpoints (Debugger_setBreakpointByUrl h session c st) =
     breakpoints (snd (setBulkBreakpoints h session [c] st)) \<and>
   toAdapter (Debugger_setBreakpointByUrl h session c st) =
     toAdapter (snd (setBulkBreakpoints h session [c] st))"
  by (cases "setBulkBreakpoints h session [c] st")
     (simp add: Debugger_setBreakpointByUrl_def sendMessageToClient_def split: sum.splits)

text \<open>
  What one \<open>Debugger.setBreakpointByUrl\<close> does to the ledger and to the adapter, for a
  session that is ready: \<open>b\<close> is the new record after the synchronisation.
\<close>

lemma stage_single:
  assumes ready: "isReadyForBreakpoints session"
    and decode: "decodeURIComponent h (cmd_url c) = Some u"
    and reg: "registerFile h u = None"
  shows "\<exists>b. path b = uriToPath h u \<and>
     breakpoints (Debugger_setBreakpointByUrl h session c st) = breakpoints st @ [b] \<and>
     toAdapter (Debugger_setBreakpointByUrl h session c st) =
       toAdapter st @
         [setBreakpoints_request (uriToPath h u)
            (map lineNumber (sg_breakpoints (fst (stageGroup h (u, [c]) st))))
            (map (\<lambda>bp. (lineNumber bp, condition bp))
               (sg_breakpoints (fst (stageGroup h (u, [c]) st))))]"
proof -
  define g where "g = fst (stageGroup h (u, [c]) st)"
  define st0 where "st0 = snd (stageGroup h (u, [c]) st)"
  define new where "new = newTranslatorBp (uriToPath h u) c"
  have g: "sg_url g = u" "sg_path g = uriToPath h u" "sg_commands g = [c]"
    "sg_offset g = length (breakpoints st)"
    "\<exists>olds. sg_breakpoints g = new # olds"
    by (simp_all add: g_def stageGroup_def Let_def new_def)
  have st0: "breakpoints st0 = breakpoints st @ [new]" "toAdapter st0 = toAdapter st"
    by (simp_all add: st0_def stageGroup_def Let_def new_def)
  have pnew: "path new = uriToPath h u"
    by (simp add: new_def newTranslatorBp_def)
  from reg g(1) have reg': "registerFile h (sg_url g) = None" by simp
  note sg = syncGroup_props [OF reg', of session st0]
  have state: "breakpoints (Debugger_setBreakpointByUrl h session c st) =
      breakpoints (snd (syncGroup h session g st0))"
    "toAdapter (Debugger_setBreakpointByUrl h session c st) =
      toAdapter (snd (syncGroup h session g st0))"
    using Debugger_setBreakpointByUrl_state [of h session c st]
      setBulkBreakpoints_single [OF ready decode, of st]
    by (simp_all add: g_def st0_def)
  have "\<exists>b. path b = uriToPath h u \<and>
      breakpoints (snd (syncGroup h session g st0)) = breakpoints st @ [b]"
    using sg(2)
  proof
    assume "breakpoints (snd (syncGroup h session g st0)) = breakpoints st0"
    with st0(1) pnew show ?thesis by simp
  next
    assume "\<exists>bps'. map path bps' = map path (sg_breakpoints g) \<and>
            breakpoints (snd (syncGroup h session g st0)) =
              take (sg_offset g) (breakpoints st0) @ take (length (sg_commands g)) bps' @
              drop (sg_offset g + length (sg_commands g)) (breakpoints st0)"
    then obtain bps' where bps': "map path bps' = map path (sg_breakpoints g)"
      "breakpoints (snd (syncGroup h session g st0)) =
              take (sg_offset g) (breakpoints st0) @ take (length (sg_commands g)) bps' @
              drop (sg_offset g + length (sg_commands g)) (breakpoints st0)"
      by blast
    from g(5) obtain olds where "sg_breakpoints g = new # olds" by blast
    with bps'(1) obtain x xs where x: "bps' = x # xs" "path x = path new"
      by (cases bps') auto
    from bps'(2) have "breakpoints (snd (syncGroup h session g st0)) = breakpoints st @ [x]"
      by (simp add: g(3) g(4) st0(1) x(1))
    with x(2) pnew show ?thesis by simp
  qed
  moreover from state(2) sg(1)
  have "toAdapter (Debugger_setBreakpointByUrl h session c st) =
       toAdapter st @
         [setBreakpoints_request (uriToPath h u)
            (map lineNumber (sg_breakpoints g))
            (map (\<lambda>bp. (lineNumber bp, condition bp)) (sg_breakpoints g))]"
    by (simp add: g(2) st0(2))
  ultimately show ?thesis
    using state(1) unfolding g_def by simp
qed

text \<open>
  The list built for the adapter, spelled out on the ledger itself: the new record,
  then every record of the ledger that has the command's path and another line.
\<close>

lemma staged_breakpoints:
  "sg_breakpoints (fst (stageGroup h (u, [c]) st)) =
     newTranslatorBp (uriToPath h u) c #
       filter (\<lambda>b. path b = uriToPath h u \<and> lineNumber b \<noteq> cmd_lineNumber c + 1)
         (breakpoints st)"
  by (simp add: stageGroup_def Let_def getBreakpointsForFilePath_def newTranslatorBp_def)

lemma stage_rejected:
  assumes "isReadyForBreakpoints session" "decodeURIComponent h (cmd_url c) = Some u"
    and "registerFile h u = Some message"
  shows "breakpoints (Debugger_setBreakpointByUrl h session c st) =
           breakpoints st @ [newTranslatorBp (uriToPath h u) c] \<and>
         toAdapter (Debugger_setBreakpointByUrl h session c st) = toAdapter st"
  using assms
  by (simp add: Debugger_setBreakpointByUrl_def setBulkBreakpoints_def groupByUrl_def
      stageGroup_def syncGroup_def Let_def sendMessageToClient_def)

lemma stage_refused:
  assumes "\<not> isReadyForBreakpoints session \<or> decodeURIComponent h (cmd_url c) = None"
  shows "breakpoints (Debugger_setBreakpointByUrl h session c st) = breakpoints st \<and>
         toAdapter (Debugger_setBreakpointByUrl h session c st) = toAdapter st"
  using assms
  by (auto simp: Debugger_setBreakpointByUrl_def setBulkBreakpoints_def
      sendMessageToClient_def)

text \<open>
  C1, as stated, fails. Two \<open>Debugger.setBreakpointByUrl\<close> commands for line 10 of the
  same file leave two records in the ledger for that file and line.
\<close>

theorem ledger_duplicate_counterexample:
  "ledger_keys staged_twice = [(''a'', 11), (''a'', 11)] \<and>
   \<not> distinct (ledger_keys staged_twice)"
  by code_simp

text \<open>
  C1, amended. The ledger may hold several records for one (path, line). A
  \<open>Debugger.setBreakpointByUrl\<close> command handled while the session runs changes the
  ledger by appending only. When the session is ready for breakpoints and the URL of
  the command decodes, the command appends exactly one record, of the command's path,
  and removes or moves none; if the registration of the file then succeeds, it sends
  one setBreakpoints request for that path, which lists the command's line first and
  then, in the order of the ledger, every older record of the ledger that has this
  path and another line, with its line and condition: the line staged occurs once, the
  older records of that line are left out of this synchronisation and the older
  records on other lines are all sent (a line twice where the ledger has it twice); if
  the registration is rejected, no request is sent. When the session is not ready or
  the URL is malformed, the ledger does not change and no request is sent.
\<close>

theorem stage_appends_and_supersedes:
  "(isReadyForBreakpoints session \<and> decodeURIComponent h (cmd_url c) = Some u \<longrightarrow>
      (\<exists>b. path b = uriToPath h u \<and>
           breakpoints (Debugger_setBreakpointByUrl h session c st) = breakpoints st @ [b]) \<and>
      (registerFile h u = None \<longrightarrow>
         toAdapter (Debugger_setBreakpointByUrl h session c st) =
           toAdapter st @
             [setBreakpoints_request (uriToPath h u)
                ((cmd_lineNumber c + 1) #
                   map lineNumber
                     (filter (\<lambda>b. path b = uriToPath h u \<and>
                                   lineNumber b \<noteq> cmd_lineNumber c + 1) (breakpoints st)))
                ((cmd_lineNumber c + 1,
                  case cmd_condition c of None \<Rightarrow> [] | Some s \<Rightarrow> s) #
                   map (\<lambda>b. (lineNumber b, condition b))
                     (filter (\<lambda>b. path b = uriToPath h u \<and>
                                   lineNumber b \<noteq> cmd_lineNumber c + 1) (breakpoints st)))]) \<and>
      (registerFile h u \<noteq> None \<longrightarrow>
         toAdapter (Debugger_setBreakpointByUrl h session c st) = toAdapter st)) \<and>
   (\<not> isReadyForBreakpoints session \<or> decodeURIComponent h (cmd_url c) = None \<longrightarrow>
      breakpoints (Debugger_setBreakpointByUrl h session c st) = breakpoints st \<and>
      toAdapter (Debugger_setBreakpointByUrl h session c st) = toAdapter st)"
proof (intro conjI impI)
  assume a: "isReadyForBreakpoints session \<and> decodeURIComponent h (cmd_url c) = Some u"
  then have ready: "isReadyForBreakpoints session"
    and decode: "decodeURIComponent h (cmd_url c) = Some u"
    by simp_all
  show "\<exists>b. path b = uriToPath h u \<and>
           breakpoints (Debugger_setBreakpointByUrl h session c st) = breakpoints st @ [b]"
  proof (cases "registerFile h u")
    case None
    from stage_single [OF ready decode None, of st] show ?thesis by blast
  next
    case (Some message)
    from stage_rejected [OF ready decode Some, of st] show ?thesis
      by (simp add: newTranslatorBp_def)
  qed
next
  assume a: "isReadyForBreakpoints session \<and> decodeURIComponent h (cmd_url c) = Some u"
    and reg: "registerFile h u = None"
  from a have ready: "isReadyForBreakpoints session"
    and decode: "decodeURIComponent h (cmd_url c) = Some u"
    by simp_all
  from stage_single [OF ready decode reg, of st]
  have "toAdapter (Debugger_setBreakpointByUrl h session c st) =
       toAdapter st @
         [setBreakpoints_request (uriToPath h u)
            (map lineNumber (sg_breakpoints (fst (stageGroup h (u, [c]) st))))
            (map (\<lambda>bp. (lineNumber bp, condition bp))
               (sg_breakpoints (fst (stageGroup h (u, [c]) st))))]"
    by blast
  then show "toAdapter (Debugger_setBreakpointByUrl h session c st) =
           toAdapter st @
             [setBreakpoints_request (uriToPath h u)
                ((cmd_lineNumber c + 1) #
                   map lineNumber
                     (filter (\<lambda>b. path b = uriToPath h u \<and>
                                   lineNumber b \<noteq> cmd_lineNumber c + 1) (breakpoints st)))
                ((cmd_lineNumber c + 1,
                  case cmd_condition c of None \<Rightarrow> [] | Some s \<Rightarrow> s) #
                   map (\<lambda>b. (lineNumber b, condition b))
                     (filter (\<lambda>b. path b = uriToPath h u \<and>
                                   lineNumber b \<noteq> cmd_lineNumber c + 1) (breakpoints st)))]"
    by (simp add: staged_breakpoints newTranslatorBp_def)
next
  assume a: "isReadyForBreakpoints session \<and> decodeURIComponent h (cmd_url c) = Some u"
    and reg: "registerFile h u \<noteq> None"
  from reg obtain message where "registerFile h u = Some message" by auto
  with a stage_rejected [of session h c u message st]
  show "toAdapter (Debugger_setBreakpointByUrl h session c st) = toAdapter st"
    by simp
next
  assume "\<not> isReadyForBreakpoints session \<or> decodeURIComponent h (cmd_url c) = None"
  from stage_refused [OF this, of st]
  show "breakpoints (Debugger_setBreakpointByUrl h session c st) = breakpoints st"
    and "toAdapter (Debugger_setBreakpointByUrl h session c st) = toAdapter st"
    by simp_all
qed

text \<open>
  On the ledger with lines 11 and 21 of file \<open>a\<close> and line 11 of file \<open>b\<close>, a new
  breakpoint on line 10 of \<open>a\<close> adds a fourth record and asks the adapter for lines 11
  and 21 of \<open>a\<close>; a command with the URL \<open>%\<close> changes nothing.
\<close>

theorem stage_appends_and_supersedes_witness:
  "ledger_keys staged_three = [(''a'', 11), (''a'', 21), (''b'', 11)] \<and>
   ledger_keys (Debugger_setBreakpointByUrl plain_helpers verifying_adapter
      (break_at 5 ''a'' 10) staged_three) =
     [(''a'', 11), (''a'', 21), (''b'', 11), (''a'', 11)] \<and>
   toAdapter (Debugger_setBreakpointByUrl plain_helpers verifying_adapter
      (break_at 5 ''a'' 10) staged_three) =
     toAdapter staged_three @ [setBreakpoints_request ''a'' [11, 21] [(11, []), (21, [])]] \<and>
   breakpoints (Debugger_setBreakpointByUrl strict_helpers verifying_adapter
      (break_at 6 ''%'' 10) staged_three) = breakpoints staged_three \<and>
   toAdapter (Debugger_setBreakpointByUrl strict_helpers verifying_adapter
      (break_at 6 ''%'' 10) staged_three) = toAdapter staged_three"
proof -
  have h1: "isReadyForBreakpoints verifying_adapter \<and>
      decodeURIComponent plain_helpers (cmd_url (break_at 5 ''a'' 10)) = Some ''a''"
    by (simp add: verifying_adapter_def plain_helpers_def break_at_def)
  have h2: "registerFile plain_helpers ''a'' = None"
    by (simp add: plain_helpers_def)
  have h3: "\<not> isReadyForBreakpoints verifying_adapter \<or>
      decodeURIComponent strict_helpers (cmd_url (break_at 6 ''%'' 10)) = None"
    by (simp add: strict_helpers_def strict_decode_def break_at_def)
  have keys: "ledger_keys staged_three = [(''a'', 11), (''a'', 21), (''b'', 11)]"
    by code_simp
  have keys': "ledger_keys (Debugger_setBreakpointByUrl plain_helpers verifying_adapter
      (break_at 5 ''a'' 10) staged_three) =
     [(''a'', 11), (''a'', 21), (''b'', 11), (''a'', 11)]"
    by code_simp
  have older: "filter (\<lambda>b. path b = uriToPath plain_helpers ''a'' \<and>
                  lineNumber b \<noteq> cmd_lineNumber (break_at 5 ''a'' 10) + 1)
                (breakpoints staged_three) =
     [\<lparr>breakpointId = Some ''2'', path = ''a'', lineNumber = 21, condition = [],
       hitCount = 0, resolved = True\<rparr>]"
    by code_simp
  from stage_appends_and_supersedes
         [of verifying_adapter plain_helpers "break_at 5 ''a'' 10" "''a''" staged_three] h1 h2
  have sent: "toAdapter (Debugger_setBreakpointByUrl plain_helpers verifying_adapter
      (break_at 5 ''a'' 10) staged_three) =
     toAdapter staged_three @ [setBreakpoints_request ''a'' [11, 21] [(11, []), (21, [])]]"
    by (simp add: older) (simp add: plain_helpers_def break_at_def)
  from stage_appends_and_supersedes
         [of verifying_adapter strict_helpers "break_at 6 ''%'' 10" "''a''" staged_three] h3
  have "breakpoints (Debugger_setBreakpointByUrl strict_helpers verifying_adapter
      (break_at 6 ''%'' 10) staged_three) = breakpoints staged_three \<and>
   toAdapter (Debugger_setBreakpointByUrl strict_helpers verifying_adapter
      (break_at 6 ''%'' 10) staged_three) = toAdapter staged_three"
    by blast
  with keys keys' sent show ?thesis by simp
qed

section \<open>Lines and columns across the boundary\<close>

text \<open>
  The lines are converted as the translator announces to the adapter
  (\<open>linesStartAt1\<close>): a breakpoint of client line \<open>x\<close> is requested on line \<open>x + 1\<close>
  (lemma \<open>staged_breakpoints\<close> with \<open>newTranslatorBp\<close>) and answered with the adapter's
  line minus one, which is the line the adapter reports if it reports one and the
  requested line otherwise.
\<close>

lemma stage_single_response:
  assumes ready: "isReadyForBreakpoints session"
    and decode: "decodeURIComponent h (cmd_url c) = Some u"
    and reg: "registerFile h u = None"
    and ans: "setBreakpoints session (uriToPath h u)
        (map (\<lambda>bp. (lineNumber bp, condition bp))
           (sg_breakpoints (fst (stageGroup h (u, [c]) st)))) = Inr (v # vs)"
    and len: "Suc (length vs) = length (sg_breakpoints (fst (stageGroup h (u, [c]) st)))"
  shows "\<exists>bid. toClient (Debugger_setBreakpointByUrl h session c st) =
     toClient st @
       [setBreakpointByUrl_response (cmd_id c) bid
          (nuclideDebuggerLocation (uriToPath h u)
             ((case vs_line v of None \<Rightarrow> cmd_lineNumber c + 1 | Some l \<Rightarrow> l) - 1) 0)
          (vs_verified v)]"
  using ready decode reg ans len
  by (auto simp: Debugger_setBreakpointByUrl_def setBulkBreakpoints_def groupByUrl_def
      stageGroup_def syncGroup_def syncBreakpointsForFilePath_def Let_def sendRequest_def
      setBreakpointResponse_def newTranslatorBp_def tryUpdateBreakpoint_def
      nuclideDebuggerLocation_def split: option.splits)

text \<open>A stack frame of the adapter is reported one line and one column lower.\<close>

lemma translateFrame_location:
  "location (translateFrame session frame) =
     nuclideDebuggerLocation (frameScriptId frame) (frame_line frame - 1)
       (frame_column frame - 1)"
  by (simp add: translateFrame_def)

text \<open>
  The request of \<open>Debugger.continueToLocation\<close>: the line plus one, and the column as
  it came unless it is 0 or absent.
\<close>

lemma continueToLocation_sent:
  assumes "registerFile h (pathToUri h (ctl_scriptId loc)) = None"
  shows "toAdapter (Debugger_continueToLocation h session cid loc st) =
     toAdapter st @
       [continueToLocation_request
          \<lparr>arg_column = (case ctl_columnNumber loc of
                           None \<Rightarrow> 1 | Some x \<Rightarrow> if x = 0 then 1 else x),
           arg_line = ctl_lineNumber loc + 1,
           arg_source_path = getPath h (ctl_scriptId loc),
           arg_source_name = basename h (ctl_scriptId loc),
           arg_threadId = ctl_threadId loc\<rparr>]"
  using assms
  by (simp add: Debugger_continueToLocation_def continueToLocation_def Let_def
      sendRequest_def sendMessageToClient_def or_default_def split: option.splits)

text \<open>
  C6 names the conversion the translator is built on, and \<open>Debugger.continueToLocation\<close>
  misses it for the column. A frame that the adapter reports at line 4, column 6 is
  shown to the client at line 3, column 5; continuing to line 3, column 5 of the client
  asks the adapter for line 4, column 5, not column 6: the column is sent as
  \<open>columnNumber || 1\<close>, without the \<open>+ 1\<close> that the line gets.
\<close>

theorem continue_to_location_column:
  "location (translateFrame verifying_adapter (frame_at 4 6)) =
     nuclideDebuggerLocation ''a'' 3 5 \<and>
   sentLocations (Debugger_continueToLocation plain_helpers verifying_adapter 1
      (location_a 3 (Some 5)) new_translator) = [(4, 5)]"
  by code_simp

section \<open>The stack traces of a stop event\<close>

text \<open>The level limit is the same for every thread of one stop event.\<close>

lemma levelsFor_same: "levelsFor ev st i = levelsFor ev st j"
  by (simp add: levelsFor_def)

text \<open>
  C3 names the behaviour one expects, and the code misses it. Threads 1 and 2 run, the
  adapter loads stack traces lazily. When thread 1 stops with all threads stopped,
  thread 1 becomes the active thread and the stack trace of thread 2, which is not the
  active thread, is requested without a level limit. When the stop event names no
  thread, thread 1 becomes the active thread and its stack trace is requested with
  \<open>levels = 1\<close>, while its call stack is recorded as loaded.
\<close>

theorem stop_event_levels:
  "toAdapter (onStoppedEvent plain_helpers verifying_adapter False False
      (stopped_at (Some 1)) two_running) =
     [stackTrace_request 1 None, stackTrace_request 2 None] \<and>
   pausedThreadId (onStoppedEvent plain_helpers verifying_adapter False False
      (stopped_at (Some 1)) two_running) = Some 1 \<and>
   toAdapter (onStoppedEvent plain_helpers verifying_adapter False False
      (stopped_at None) two_running) =
     [stackTrace_request 1 (Some 1), stackTrace_request 2 (Some 1)] \<and>
   pausedThreadId (onStoppedEvent plain_helpers verifying_adapter False False
      (stopped_at None) two_running) = Some 1 \<and>
   map (\<lambda>e. (fst e, callStackLoaded (snd e)))
     (threadsById (onStoppedEvent plain_helpers verifying_adapter False False
        (stopped_at None) two_running)) = [(1, True), (2, False)]"
  by code_simp

section \<open>The thread of a pause request\<close>

text \<open>The request of \<open>Debugger.pause\<close>, and the active thread after it.\<close>

lemma Debugger_pause_request:
  "toAdapter (Debugger_pause session cid st) =
     toAdapter st @
       [pause_request
          (case pausedThreadId st of
             Some t \<Rightarrow> t
           | None \<Rightarrow>
               (case threadsById st of
                  [] \<Rightarrow> - 1
                | e # _ \<Rightarrow> if fst e = 0 then - 1 else fst e))] \<and>
   pausedThreadId (Debugger_pause session cid st) = None"
  by (simp add: Debugger_pause_def Let_def sendRequest_def sendMessageToClient_def
      updatePausedThreadId_def or_default_def split: option.splits list.splits)

text \<open>
  C8 names the behaviour one expects, and the code misses one case of it. With no
  active thread and thread 0 the first thread of the registry, \<open>Debugger.pause\<close> asks
  the adapter to pause thread \<open>-1\<close>, not thread 0: \<open>0 || -1\<close> is \<open>-1\<close>.
\<close>

theorem pause_thread_zero:
  "map fst (threadsById (onThreadEvent ''started'' 0 new_translator)) = [0] \<and>
   pausedThreadId (onThreadEvent ''started'' 0 new_translator) = None \<and>
   toAdapter (Debugger_pause verifying_adapter 5 (onThreadEvent ''started'' 0 new_translator)) =
     [pause_request (- 1)]"
  by code_simp

end
